theory Spec2Isabelle
  imports Complex_Main
begin

section \<open>JavaScript values\<close>

text \<open>
  The dashboard is TypeScript; at run time its numbers are JavaScript numbers, that is,
  IEEE 754 binary64 values, and its strings are sequences of UTF-16 code units.

  A number is modelled as \<open>jsnum\<close>: a finite value, \<open>NaN\<close>, or one of the two
  infinities. A finite value is the real number that the binary64 value denotes; the sign
  of zero is not modelled (every zero is \<open>+0\<close>). The operations \<open>+\<close>, \<open>*\<close> and
  \<open>/\<close> compute the exact result and round it to the nearest binary64 value, ties to
  the even significand, as IEEE 754 prescribes (\<open>round64\<close> below): a result that is
  too large becomes an infinity, one that is too small a subnormal number or zero. No
  operation on numbers throws in JavaScript: division by zero, comparison with \<open>NaN\<close>
  and arithmetic on infinities all return numbers or booleans, and each of these cases is
  a branch here.
\<close>

datatype jsnum = Num real | NaN | PosInf | NegInf

text \<open>
  The whole number \<open>z\<close> with \<open>k^z \<le> x < k^(z+1)\<close>, for a whole base \<open>k > 1\<close> and
  \<open>x > 0\<close>: by repeated division for \<open>x \<ge> 1\<close>, and on the reciprocal for
  \<open>0 < x < 1\<close>. With base 2 it is the binary exponent of \<open>x\<close>, with base 10 the
  decimal one.
\<close>

fun floorLogNat :: "nat \<Rightarrow> nat \<Rightarrow> nat" where
  "floorLogNat k n = (if k < 2 \<or> n < k then 0 else Suc (floorLogNat k (n div k)))"

declare floorLogNat.simps [simp del]

definition floorLogPos :: "nat \<Rightarrow> real \<Rightarrow> int" where
  "floorLogPos k x =
     (if 1 \<le> x then int (floorLogNat k (nat \<lfloor>x\<rfloor>))
      else - int (Suc (floorLogNat k (nat \<lceil>1 / x\<rceil> - 1))))"

text \<open>A whole base to a whole, possibly negative, exponent.\<close>

definition powInt :: "nat \<Rightarrow> int \<Rightarrow> real" where
  "powInt b e = (if 0 \<le> e then real b ^ nat e else 1 / real b ^ nat (- e))"

text \<open>
  Rounding to binary64. The nearest whole number, the even one of two that are equally
  near; the distance between neighbouring binary64 values around \<open>x\<close>, which is
  \<open>2^(e-52)\<close> for \<open>2^e \<le> |x| < 2^(e+1)\<close> and \<open>2^(-1074)\<close> below \<open>2^(-1022)\<close>;
  and the multiple of that distance nearest to \<open>x\<close>, which is an infinity from
  \<open>2^1024\<close>.
\<close>

definition roundHalfEven :: "real \<Rightarrow> int" where
  "roundHalfEven y =
     (if y - of_int \<lfloor>y\<rfloor> < 1 / 2 then \<lfloor>y\<rfloor>
      else if 1 / 2 < y - of_int \<lfloor>y\<rfloor> then \<lfloor>y\<rfloor> + 1
      else if even \<lfloor>y\<rfloor> then \<lfloor>y\<rfloor> else \<lfloor>y\<rfloor> + 1)"

definition ulp :: "real \<Rightarrow> real" where
  "ulp x = powInt 2 (max (floorLogPos 2 \<bar>x\<bar>) (- 1022) - 52)"

definition round64 :: "real \<Rightarrow> jsnum" where
  "round64 x =
     (if x = 0 then Num 0
      else
        let r = of_int (roundHalfEven (x / ulp x)) * ulp x
        in if 2 ^ 1024 \<le> \<bar>r\<bar> then (if 0 < x then PosInf else NegInf) else Num r)"

text \<open>\<open>x >= y\<close>: false as soon as one side is \<open>NaN\<close>.\<close>

fun jsGe :: "jsnum \<Rightarrow> jsnum \<Rightarrow> bool" where
  "jsGe NaN _ = False"
| "jsGe _ NaN = False"
| "jsGe (Num a) (Num b) = (b \<le> a)"
| "jsGe PosInf _ = True"
| "jsGe _ NegInf = True"
| "jsGe (Num _) PosInf = False"
| "jsGe NegInf _ = False"

text \<open>\<open>x > y\<close>.\<close>

fun jsGt :: "jsnum \<Rightarrow> jsnum \<Rightarrow> bool" where
  "jsGt NaN _ = False"
| "jsGt _ NaN = False"
| "jsGt (Num a) (Num b) = (b < a)"
| "jsGt PosInf PosInf = False"
| "jsGt PosInf _ = True"
| "jsGt NegInf _ = False"
| "jsGt (Num _) NegInf = True"
| "jsGt (Num _) PosInf = False"

text \<open>
  \<open>x / y\<close>: the rounded quotient; a finite value over zero is an infinity of its sign,
  zero over zero \<open>NaN\<close>.
\<close>

fun jsDiv :: "jsnum \<Rightarrow> jsnum \<Rightarrow> jsnum" where
  "jsDiv NaN _ = NaN"
| "jsDiv _ NaN = NaN"
| "jsDiv (Num a) (Num b) =
     (if b \<noteq> 0 then round64 (a / b)
      else if 0 < a then PosInf
      else if a < 0 then NegInf
      else NaN)"
| "jsDiv (Num _) PosInf = Num 0"
| "jsDiv (Num _) NegInf = Num 0"
| "jsDiv PosInf (Num b) = (if 0 \<le> b then PosInf else NegInf)"
| "jsDiv NegInf (Num b) = (if 0 \<le> b then NegInf else PosInf)"
| "jsDiv PosInf _ = NaN"
| "jsDiv NegInf _ = NaN"

text \<open>\<open>x * y\<close>: the rounded product; zero times an infinity is \<open>NaN\<close>.\<close>

fun jsMul :: "jsnum \<Rightarrow> jsnum \<Rightarrow> jsnum" where
  "jsMul NaN _ = NaN"
| "jsMul _ NaN = NaN"
| "jsMul (Num a) (Num b) = round64 (a * b)"
| "jsMul (Num a) PosInf = (if a = 0 then NaN else if 0 < a then PosInf else NegInf)"
| "jsMul (Num a) NegInf = (if a = 0 then NaN else if 0 < a then NegInf else PosInf)"
| "jsMul PosInf (Num b) = (if b = 0 then NaN else if 0 < b then PosInf else NegInf)"
| "jsMul NegInf (Num b) = (if b = 0 then NaN else if 0 < b then NegInf else PosInf)"
| "jsMul PosInf PosInf = PosInf"
| "jsMul PosInf NegInf = NegInf"
| "jsMul NegInf PosInf = NegInf"
| "jsMul NegInf NegInf = PosInf"

text \<open>\<open>x + y\<close>: the rounded sum; the sum of the two different infinities is \<open>NaN\<close>.\<close>

fun jsAdd :: "jsnum \<Rightarrow> jsnum \<Rightarrow> jsnum" where
  "jsAdd NaN _ = NaN"
| "jsAdd _ NaN = NaN"
| "jsAdd (Num a) (Num b) = round64 (a + b)"
| "jsAdd (Num _) PosInf = PosInf"
| "jsAdd (Num _) NegInf = NegInf"
| "jsAdd PosInf NegInf = NaN"
| "jsAdd PosInf _ = PosInf"
| "jsAdd NegInf PosInf = NaN"
| "jsAdd NegInf _ = NegInf"

text \<open>
  \<open>x % y\<close>: the remainder has the sign of the dividend (the quotient is truncated);
  a zero divisor or an infinite dividend gives \<open>NaN\<close>, an infinite divisor leaves a
  finite dividend as it is. The remainder of two binary64 values is a binary64 value, so
  nothing is rounded.
\<close>

definition truncate_real :: "real \<Rightarrow> int" where
  "truncate_real q = (if 0 \<le> q then \<lfloor>q\<rfloor> else \<lceil>q\<rceil>)"

fun jsMod :: "jsnum \<Rightarrow> jsnum \<Rightarrow> jsnum" where
  "jsMod NaN _ = NaN"
| "jsMod _ NaN = NaN"
| "jsMod PosInf _ = NaN"
| "jsMod NegInf _ = NaN"
| "jsMod (Num a) (Num b) =
     (if b = 0 then NaN else Num (a - b * of_int (truncate_real (a / b))))"
| "jsMod (Num a) PosInf = Num a"
| "jsMod (Num a) NegInf = Num a"

text \<open>\<open>Math.floor(x)\<close>; a whole number within the range is a binary64 value.\<close>

fun mathFloor :: "jsnum \<Rightarrow> jsnum" where
  "mathFloor (Num q) = Num (of_int \<lfloor>q\<rfloor>)"
| "mathFloor x = x"

text \<open>
  Truthiness of a number, as \<open>x || 0\<close> and \<open>x ? a : b\<close> test it: zero and
  \<open>NaN\<close> are falsy.
\<close>

fun truthy :: "jsnum \<Rightarrow> bool" where
  "truthy (Num q) = (q \<noteq> 0)"
| "truthy NaN = False"
| "truthy _ = True"

text \<open>
  A string is the list of its UTF-16 code units. \<open>ascii\<close> reads an ASCII literal; the
  characters outside ASCII that the program uses are written as code units.
\<close>

type_synonym jsstring = "nat list"

definition ascii :: "string \<Rightarrow> jsstring" where
  "ascii s = map of_char s"

section \<open>The node record of \<open>NodeCard.tsx\<close>\<close>

text \<open>
  \<open>interface NodeData\<close>. The optional fields \<open>status?\<close> and \<open>stats?\<close> are options:
  \<open>None\<close> is \<open>undefined\<close>. The fields \<open>total\<close> and \<open>group\<close> are named
  \<open>total_bytes\<close> and \<open>group_label\<close>. \<open>App.tsx\<close> reads the same records from the
  \<open>useNodes\<close> hook and tests \<open>node.stats?.network\<close> for truthiness, so the
  \<open>network\<close> field is an option as well.
\<close>

datatype Status = Online | Offline

record Cpu =
  usage :: jsnum

record Capacity =
  total_bytes :: jsnum
  used :: jsnum

record Network =
  up :: jsnum
  down :: jsnum
  totalUp :: jsnum
  totalDown :: jsnum

record Load =
  load1 :: jsnum
  load5 :: jsnum
  load15 :: jsnum

record Connections =
  tcp :: jsnum
  udp :: jsnum

record NodeStats =
  cpu :: Cpu
  ram :: Capacity
  swap :: Capacity
  disk :: Capacity
  network :: "Network option"
  load :: Load
  uptime :: jsnum
  process :: jsnum
  connections :: Connections

record NodeData =
  uuid :: jsstring
  name :: jsstring
  cpu_name :: jsstring
  virtualization :: jsstring
  arch :: jsstring
  cpu_cores :: jsnum
  os :: jsstring
  gpu_name :: jsstring
  region :: jsstring
  mem_total :: jsnum
  swap_total :: jsnum
  disk_total :: jsnum
  weight :: jsnum
  price :: jsnum
  billing_cycle :: jsnum
  currency :: jsstring
  expired_at :: jsstring
  group_label :: jsstring
  tags :: jsstring
  created_at :: jsstring
  updated_at :: jsstring
  status :: "Status option"
  stats :: "NodeStats option"

section \<open>Status classification (\<open>NodeCard.tsx\<close>, \<open>cpuStatus\<close>, \<open>ramStatus\<close>, \<open>diskStatus\<close>)\<close>

datatype Level = Normal | Warning | Critical

text \<open>
  \<^verbatim>\<open>if (!stats) return 'normal';
  const usage = stats.cpu.usage;
  if (usage >= 80) return 'critical';
  if (usage >= 60) return 'warning';
  return 'normal';\<close>
\<close>

definition cpuStatus :: "NodeData \<Rightarrow> Level" where
  "cpuStatus node =
     (case stats node of
        None \<Rightarrow> Normal
      | Some s \<Rightarrow>
          let usage = usage (cpu s)
          in if jsGe usage (Num 80) then Critical
             else if jsGe usage (Num 60) then Warning
             else Normal)"

text \<open>
  The expressions \<open>(stats.ram.used / stats.ram.total) * 100\<close> and
  \<open>(stats.disk.used / stats.disk.total) * 100\<close>. The component writes each of them
  three times: in the classification, in the percentage text and as the value of the
  progress bar.
\<close>

definition ramUsage :: "NodeStats \<Rightarrow> jsnum" where
  "ramUsage s = jsMul (jsDiv (used (ram s)) (total_bytes (ram s))) (Num 100)"

definition diskUsage :: "NodeStats \<Rightarrow> jsnum" where
  "diskUsage s = jsMul (jsDiv (used (disk s)) (total_bytes (disk s))) (Num 100)"

text \<open>\<open>const usage = (stats.ram.used / stats.ram.total) * 100;\<close> with 85 and 70.\<close>

definition ramStatus :: "NodeData \<Rightarrow> Level" where
  "ramStatus node =
     (case stats node of
        None \<Rightarrow> Normal
      | Some s \<Rightarrow>
          let usage = ramUsage s
          in if jsGe usage (Num 85) then Critical
             else if jsGe usage (Num 70) then Warning
             else Normal)"

text \<open>\<open>const usage = (stats.disk.used / stats.disk.total) * 100;\<close> with 90 and 75.\<close>

definition diskStatus :: "NodeData \<Rightarrow> Level" where
  "diskStatus node =
     (case stats node of
        None \<Rightarrow> Normal
      | Some s \<Rightarrow>
          let usage = diskUsage s
          in if jsGe usage (Num 90) then Critical
             else if jsGe usage (Num 75) then Warning
             else Normal)"

section \<open>Numbers to strings and back\<close>

text \<open>The decimal digits of a natural number, as code units (\<open>0\<close> is 48).\<close>

fun digits :: "nat \<Rightarrow> jsstring" where
  "digits n = (if n < 10 then [48 + n] else digits (n div 10) @ [48 + n mod 10])"

declare digits.simps [simp del]

text \<open>
  Fixed notation: the digits of \<open>n\<close> with a point before the last \<open>f\<close> of them,
  padded with zeros on the left so that at least one digit precedes the point.
\<close>

definition fixedNotation :: "nat \<Rightarrow> nat \<Rightarrow> jsstring" where
  "fixedNotation n f =
     (let m = digits n;
          m = (if length m \<le> f then replicate (f + 1 - length m) 48 @ m else m)
      in if f = 0 then m
         else take (length m - f) m @ [46] @ drop (length m - f) m)"

text \<open>
  \<open>Number::toString\<close> in radix 10, for string concatenation and template literals.
  For a finite \<open>x > 0\<close> the language takes whole numbers \<open>n\<close>, \<open>k \<ge> 1\<close> and
  \<open>s\<close> with \<open>10^(k-1) \<le> s < 10^k\<close> such that \<open>s * 10^(n-k)\<close> rounds to \<open>x\<close>
  and \<open>k\<close> is as small as possible; of several \<open>s\<close> the one whose value is nearest
  to \<open>x\<close>.

  \<open>fits x sc s\<close>: the decimal \<open>s * sc\<close> rounds to \<open>x\<close>. \<open>pickDigits\<close>: of the two
  multiples of \<open>sc\<close> around \<open>x\<close>, the one that fits, the nearer one if both do.
  \<open>shortest\<close> tries \<open>k = 1, 2, ...\<close> digits, with \<open>n\<close> the decimal exponent of
  \<open>x\<close> plus one; a candidate that has reached \<open>10^k\<close> is \<open>10^(k-1)\<close> with the next
  exponent. Seventeen digits identify every binary64 value, so the search ends with
  \<open>None\<close> only for a real that is not one.
\<close>

definition fits :: "real \<Rightarrow> real \<Rightarrow> int \<Rightarrow> bool" where
  "fits x sc s = (round64 (of_int s * sc) = Num x)"

definition pickDigits :: "real \<Rightarrow> real \<Rightarrow> int \<Rightarrow> int option" where
  "pickDigits x sc lo =
     (if fits x sc lo \<and>
         (\<not> fits x sc (lo + 1) \<or> x - of_int lo * sc < of_int (lo + 1) * sc - x
          \<or> (x - of_int lo * sc = of_int (lo + 1) * sc - x \<and> even lo))
      then Some lo
      else if fits x sc (lo + 1) then Some (lo + 1)
      else None)"

fun shortest :: "nat \<Rightarrow> real \<Rightarrow> int \<Rightarrow> nat \<Rightarrow> (nat \<times> nat \<times> int) option" where
  "shortest 0 x n k = None"
| "shortest (Suc fuel) x n k =
     (case pickDigits x (powInt 10 (n - int k)) \<lfloor>x / powInt 10 (n - int k)\<rfloor> of
        None \<Rightarrow> shortest fuel x n (Suc k)
      | Some s \<Rightarrow> if s = 10 ^ k then Some (10 ^ (k - 1), k, n + 1) else Some (nat s, k, n))"

text \<open>
  The string of the digits \<open>s\<close>, their number \<open>k\<close> and the exponent \<open>n\<close>: the
  digits followed by zeros for \<open>k \<le> n \<le> 21\<close>, a point within the digits for
  \<open>0 < n \<le> 21\<close>, \<open>0.\<close>, zeros and the digits for \<open>-6 < n \<le> 0\<close>, and
  otherwise exponent notation with the sign of the exponent \<open>n - 1\<close> written out.
\<close>

definition render :: "nat \<Rightarrow> nat \<Rightarrow> int \<Rightarrow> jsstring" where
  "render s k n =
     (if int k \<le> n \<and> n \<le> 21 then digits s @ replicate (nat (n - int k)) 48
      else if 0 < n \<and> n \<le> 21 then take (nat n) (digits s) @ [46] @ drop (nat n) (digits s)
      else if - 6 < n \<and> n \<le> 0 then [48, 46] @ replicate (nat (- n)) 48 @ digits s
      else
        (if k = 1 then digits s else take 1 (digits s) @ [46] @ drop 1 (digits s))
        @ [101, if 0 \<le> n - 1 then 43 else 45] @ digits (nat \<bar>n - 1\<bar>))"

text \<open>
  A whole number up to \<open>2^53\<close> is written with all its digits: it is a binary64 value,
  its neighbours are at most 1 away, so no decimal with fewer digits rounds to it. Every
  other value goes through the search.
\<close>

definition numToString :: "jsnum \<Rightarrow> jsstring option" where
  "numToString x =
     (case x of
        NaN \<Rightarrow> Some (ascii ''NaN'')
      | PosInf \<Rightarrow> Some (ascii ''Infinity'')
      | NegInf \<Rightarrow> Some (ascii ''-Infinity'')
      | Num q \<Rightarrow>
          if q = 0 then Some (ascii ''0'')
          else if of_int \<lfloor>\<bar>q\<bar>\<rfloor> = \<bar>q\<bar> \<and> \<bar>q\<bar> \<le> 2 ^ 53
          then Some ((if q < 0 then ascii ''-'' else []) @ digits (nat \<lfloor>\<bar>q\<bar>\<rfloor>))
          else
            (case shortest 17 \<bar>q\<bar> (floorLogPos 10 \<bar>q\<bar> + 1) 1 of
               None \<Rightarrow> None
             | Some (s, k, n) \<Rightarrow> Some ((if q < 0 then ascii ''-'' else []) @ render s k n)))"

text \<open>
  \<open>Number.prototype.toFixed(f)\<close>: a value that is not finite is written by
  \<open>toString\<close>, and so is a magnitude from \<open>10^21\<close>; otherwise \<open>n\<close> is the integer
  nearest to \<open>x * 10^f\<close>, the larger one of two, taken on the magnitude, and a negative
  \<open>x\<close> keeps its sign even when \<open>n\<close> is zero. The product is not rounded: the
  language defines \<open>n\<close> on the exact value of \<open>x\<close>.
\<close>

definition toFixed :: "nat \<Rightarrow> jsnum \<Rightarrow> jsstring option" where
  "toFixed f x =
     (case x of
        Num q \<Rightarrow>
          if 10 ^ 21 \<le> \<bar>q\<bar> then numToString x
          else Some ((if q < 0 then ascii ''-'' else []) @
                     fixedNotation (nat \<lfloor>\<bar>q\<bar> * 10 ^ f + 1 / 2\<rfloor>) f)
      | _ \<Rightarrow> numToString x)"

text \<open>
  \<open>parseFloat\<close>: white space is skipped, then the longest prefix that is a decimal
  literal is read: a sign, then \<open>Infinity\<close> or digits with an optional fraction and
  an optional exponent; the result is the binary64 value nearest to the decimal. A string
  with no such prefix gives \<open>NaN\<close>.
\<close>

definition isDigit :: "nat \<Rightarrow> bool" where
  "isDigit c = (48 \<le> c \<and> c \<le> 57)"

definition isWhiteSpace :: "nat \<Rightarrow> bool" where
  "isWhiteSpace c =
     (c \<in> set [9, 10, 11, 12, 13, 32, 160, 5760, 8232, 8233, 8239, 8287, 12288, 65279]
      \<or> (8192 \<le> c \<and> c \<le> 8202))"

text \<open>The value of a run of digits read after the value \<open>acc\<close>.\<close>

fun digitsValue :: "nat \<Rightarrow> jsstring \<Rightarrow> nat" where
  "digitsValue acc [] = acc"
| "digitsValue acc (c # cs) = digitsValue (10 * acc + (c - 48)) cs"

definition startsWith :: "jsstring \<Rightarrow> jsstring \<Rightarrow> bool" where
  "startsWith s pat = (take (length pat) s = pat)"

text \<open>The exponent part \<open>e\<close>, \<open>e+\<close> or \<open>e-\<close> with at least one digit; 0 without one.\<close>

definition exponentPart :: "jsstring \<Rightarrow> int" where
  "exponentPart s =
     (case s of
        c # cs \<Rightarrow>
          if c = 101 \<or> c = 69 then
            (case cs of
               d # ds \<Rightarrow>
                 if d = 45 then
                   (if takeWhile isDigit ds = [] then 0
                    else - int (digitsValue 0 (takeWhile isDigit ds)))
                 else if d = 43 then int (digitsValue 0 (takeWhile isDigit ds))
                 else int (digitsValue 0 (takeWhile isDigit cs))
             | [] \<Rightarrow> 0)
          else 0
      | [] \<Rightarrow> 0)"

definition unsignedLiteral :: "jsstring \<Rightarrow> jsnum" where
  "unsignedLiteral s =
     (if startsWith s (ascii ''Infinity'') then PosInf
      else
        let ip = takeWhile isDigit s;
            r = dropWhile isDigit s;
            fp = (case r of c # cs \<Rightarrow> if c = 46 then takeWhile isDigit cs else [] | [] \<Rightarrow> []);
            r' = (case r of c # cs \<Rightarrow> if c = 46 then dropWhile isDigit cs else r | [] \<Rightarrow> [])
        in if ip = [] \<and> fp = [] then NaN
           else round64 (of_nat (digitsValue 0 (ip @ fp)) / 10 ^ length fp
                         * powInt 10 (exponentPart r')))"

definition jsNeg :: "jsnum \<Rightarrow> jsnum" where
  "jsNeg x = (case x of Num q \<Rightarrow> Num (- q) | NaN \<Rightarrow> NaN | PosInf \<Rightarrow> NegInf | NegInf \<Rightarrow> PosInf)"

definition parseFloat :: "jsstring \<Rightarrow> jsnum" where
  "parseFloat s =
     (case dropWhile isWhiteSpace s of
        [] \<Rightarrow> NaN
      | c # cs \<Rightarrow>
          if c = 45 then jsNeg (unsignedLiteral cs)
          else if c = 43 then unsignedLiteral cs
          else unsignedLiteral (c # cs))"

section \<open>Byte and rate formatting (\<open>App.tsx\<close> and \<open>NodeCard.tsx\<close>)\<close>

text \<open>
  \<open>Math.floor(Math.log(x) / Math.log(k))\<close> for the base \<open>k = 1024\<close> of the two
  formatters. \<open>Math.log\<close> returns an approximation that the language leaves to the
  implementation, and the quotient of the two logarithms is rounded once more. Away from
  the powers of \<open>k\<close> these roundings, each of about one part in \<open>2^52\<close>, cannot move
  the quotient across a whole number, and the result is the floor of \<open>ln x / ln k\<close>
  over the reals, which \<open>floorLogPos\<close> computes (lemma \<open>floorLogPos_ln\<close>). At a
  power \<open>k^i\<close> with \<open>i \<ge> 0\<close> the implementations return the whole number \<open>i\<close>.
  Elsewhere within one part in \<open>2^40\<close> of a power of \<open>k\<close> (\<open>nearPower\<close>) the
  roundings decide between two neighbouring whole numbers, for example \<open>1024^5 - 1\<close>
  already gives 5; there the model has no value (\<open>None\<close>).
  \<open>Math.log\<close> of zero is \<open>-Infinity\<close>, of a negative number or \<open>-Infinity\<close> it is
  \<open>NaN\<close>.
\<close>

definition nearPower :: "nat \<Rightarrow> real \<Rightarrow> int \<Rightarrow> bool" where
  "nearPower k x z =
     (if x = powInt k z then z < 0
      else x < powInt k z * (1 + 1 / 2 ^ 40) \<or> powInt k (z + 1) * (1 - 1 / 2 ^ 40) < x)"

fun floorLog :: "nat \<Rightarrow> jsnum \<Rightarrow> jsnum option" where
  "floorLog k (Num x) =
     (if 0 < x then
        (if nearPower k x (floorLogPos k x) then None
         else Some (Num (of_int (floorLogPos k x))))
      else if x = 0 then Some NegInf
      else Some NaN)"
| "floorLog k NaN = Some NaN"
| "floorLog k PosInf = Some PosInf"
| "floorLog k NegInf = Some NaN"

text \<open>
  \<open>Math.pow(k, i)\<close> for a whole base \<open>k > 1\<close>. The program calls it with the floor
  above, so a finite exponent is a whole number, and the value is \<open>k\<close> to the power
  \<open>i\<close>, rounded to binary64: an infinity or zero outside the range.
\<close>

fun mathPow :: "nat \<Rightarrow> jsnum \<Rightarrow> jsnum" where
  "mathPow k (Num e) = round64 (powInt k \<lfloor>e\<rfloor>)"
| "mathPow k NaN = NaN"
| "mathPow k PosInf = PosInf"
| "mathPow k NegInf = Num 0"

text \<open>
  \<open>xs[i]\<close> for a number \<open>i\<close>: an element when \<open>i\<close> is a whole number within the
  array, \<open>undefined\<close> (\<open>None\<close>) otherwise, also for a negative, fractional or
  non-finite \<open>i\<close>. Nothing is thrown.
\<close>

definition atIndex :: "'a list \<Rightarrow> jsnum \<Rightarrow> 'a option" where
  "atIndex xs i =
     (case i of
        Num e \<Rightarrow>
          if 0 \<le> e \<and> e < real (length xs) \<and> of_int \<lfloor>e\<rfloor> = e then Some (xs ! nat \<lfloor>e\<rfloor>)
          else None
      | _ \<Rightarrow> None)"

text \<open>String concatenation with a value that is a string or \<open>undefined\<close>.\<close>

definition stringOf :: "jsstring option \<Rightarrow> jsstring" where
  "stringOf v = (case v of None \<Rightarrow> ascii ''undefined'' | Some s \<Rightarrow> s)"

text \<open>
  \<^verbatim>\<open>if (bytes === 0) return '0 B';
  const k = 1024;
  const sizes = ['B', 'KB', 'MB', 'GB', 'TB'];
  const i = Math.floor(Math.log(bytes) / Math.log(k));
  return parseFloat((bytes / Math.pow(k, i)).toFixed(2)) + ' ' + sizes[i];\<close>
  The two files define the same function. The result is \<open>None\<close> where \<open>floorLog\<close>
  is, and for a real that is not a binary64 value.
\<close>

definition formatBytes :: "jsnum \<Rightarrow> jsstring option" where
  "formatBytes bytes =
     (if bytes = Num 0 then Some (ascii ''0 B'')
      else
        let k = 1024;
            sizes = [ascii ''B'', ascii ''KB'', ascii ''MB'', ascii ''GB'', ascii ''TB'']
        in case floorLog k bytes of
             None \<Rightarrow> None
           | Some i \<Rightarrow>
               (case toFixed 2 (jsDiv bytes (mathPow k i)) of
                  None \<Rightarrow> None
                | Some t \<Rightarrow>
                    (case numToString (parseFloat t) of
                       None \<Rightarrow> None
                     | Some m \<Rightarrow> Some (m @ ascii '' '' @ stringOf (atIndex sizes i)))))"

text \<open>
  \<^verbatim>\<open>if (bytesPerSecond === 0) return '0 B/s';
  const k = 1024;
  const sizes = ['B/s', 'KB/s', 'MB/s', 'GB/s'];
  const i = Math.floor(Math.log(bytesPerSecond) / Math.log(k));
  return parseFloat((bytesPerSecond / Math.pow(k, i)).toFixed(1)) + ' ' + sizes[i];\<close>
\<close>

definition formatSpeed :: "jsnum \<Rightarrow> jsstring option" where
  "formatSpeed bytesPerSecond =
     (if bytesPerSecond = Num 0 then Some (ascii ''0 B/s'')
      else
        let k = 1024;
            sizes = [ascii ''B/s'', ascii ''KB/s'', ascii ''MB/s'', ascii ''GB/s'']
        in case floorLog k bytesPerSecond of
             None \<Rightarrow> None
           | Some i \<Rightarrow>
               (case toFixed 1 (jsDiv bytesPerSecond (mathPow k i)) of
                  None \<Rightarrow> None
                | Some t \<Rightarrow>
                    (case numToString (parseFloat t) of
                       None \<Rightarrow> None
                     | Some m \<Rightarrow> Some (m @ ascii '' '' @ stringOf (atIndex sizes i)))))"

section \<open>Uptime (\<open>NodeCard.tsx\<close>, \<open>formatUptime\<close>)\<close>

text \<open>
  \<^verbatim>\<open>const days = Math.floor(seconds / 86400);
  const hours = Math.floor((seconds % 86400) / 3600);
  return days > 0 ? `${days}D${hours > 0 ? `${hours}H` : ''}` : `${hours}H`;\<close>
  where \<open>D\<close> stands for the character U+5929 (days) and \<open>H\<close> for the two characters
  U+5C0F U+65F6 (hours).
\<close>

definition daysSuffix :: jsstring where
  "daysSuffix = [0x5929]"

definition hoursSuffix :: jsstring where
  "hoursSuffix = [0x5C0F, 0x65F6]"

definition formatUptime :: "jsnum \<Rightarrow> jsstring option" where
  "formatUptime seconds =
     (let days = mathFloor (jsDiv seconds (Num 86400));
          hours = mathFloor (jsDiv (jsMod seconds (Num 86400)) (Num 3600))
      in if jsGt days (Num 0) then
           (case numToString days of
              None \<Rightarrow> None
            | Some d \<Rightarrow>
                if jsGt hours (Num 0) then
                  (case numToString hours of
                     None \<Rightarrow> None
                   | Some h \<Rightarrow> Some (d @ daysSuffix @ h @ hoursSuffix))
                else Some (d @ daysSuffix))
         else
           (case numToString hours of
              None \<Rightarrow> None
            | Some h \<Rightarrow> Some (h @ hoursSuffix)))"

section \<open>Region label (\<open>NodeCard.tsx\<close>, \<open>formatRegion\<close>)\<close>

text \<open>
  \<open>s.includes(pat)\<close>: \<open>pat\<close> occurs in \<open>s\<close> as a run of code units.
\<close>

fun includesStr :: "jsstring \<Rightarrow> jsstring \<Rightarrow> bool" where
  "includesStr [] pat = (pat = [])"
| "includesStr (c # cs) pat = (startsWith (c # cs) pat \<or> includesStr cs pat)"

text \<open>
  \<open>toLowerCase\<close> on the letters \<open>A\<close> to \<open>Z\<close>; other code units are kept. The
  program only asks whether the result includes \<open>taiwan\<close>, and no character outside
  ASCII has a lower case that supplies one of these letters next to the following one
  (U+0130 becomes \<open>i\<close> followed by U+0307, U+212A becomes \<open>k\<close>).
\<close>

definition toLowerCase :: "jsstring \<Rightarrow> jsstring" where
  "toLowerCase s = map (\<lambda>c. if 65 \<le> c \<and> c \<le> 90 then c + 32 else c) s"

text \<open>
  The canonical form under which a regular expression with the flag \<open>i\<close> (and without
  \<open>u\<close>) compares code units: the upper case, except that a code unit outside ASCII is
  never mapped into ASCII. Only its comparison with ASCII letters is used, so code units
  outside ASCII are left as they are.
\<close>

definition canonicalize :: "nat \<Rightarrow> nat" where
  "canonicalize c = (if 97 \<le> c \<and> c \<le> 122 then c - 32 else c)"

text \<open>The literal pattern \<open>pat\<close> matches at the start of \<open>s\<close>, up to \<open>canon\<close>.\<close>

definition matchesAt :: "(nat \<Rightarrow> nat) \<Rightarrow> jsstring \<Rightarrow> jsstring \<Rightarrow> bool" where
  "matchesAt canon pat s = (map canon (take (length pat) s) = map canon pat)"

text \<open>
  \<open>s.replace(/pat/g, rep)\<close> for a non-empty literal pattern and a replacement without
  \<open>$\<close>: the string is scanned from the left; at a match the replacement is written
  and the scan goes on after the match, otherwise the code unit is copied.
\<close>

function replaceAll :: "(nat \<Rightarrow> nat) \<Rightarrow> jsstring \<Rightarrow> jsstring \<Rightarrow> jsstring \<Rightarrow> jsstring" where
  "replaceAll canon pat rep [] = []"
| "replaceAll canon pat rep (c # cs) =
     (if matchesAt canon pat (c # cs)
      then rep @ replaceAll canon pat rep (drop (length pat - 1) cs)
      else c # replaceAll canon pat rep cs)"
  by pat_completeness auto
termination
  by (relation "measure (\<lambda>(canon, pat, rep, s). length s)") auto

declare replaceAll.simps(2) [simp del]

text \<open>
  The flag of the territory is the pair of regional indicators U+1F1F9 U+1F1FC, that of
  the United Nations U+1F1FA U+1F1F3; each is two surrogate pairs. The localized name is
  U+53F0 U+6E7E.
\<close>

definition flagTW :: jsstring where
  "flagTW = [0xD83C, 0xDDF9, 0xD83C, 0xDDFC]"

definition flagUN :: jsstring where
  "flagUN = [0xD83C, 0xDDFA, 0xD83C, 0xDDF3]"

definition nameZh :: jsstring where
  "nameZh = [0x53F0, 0x6E7E]"

text \<open>
  \<^verbatim>\<open>if (region.includes(FLAG) || region.toLowerCase().includes('taiwan')
      || region.includes(ZH)) {
    return region.replace(/FLAG/g, UN).replace(/taiwan/gi, 'Taiwan')
                 .replace(/ZH/g, 'Taiwan');
  }
  return region;\<close>
  The parameter is named \<open>reg\<close> here.
\<close>

definition formatRegion :: "jsstring \<Rightarrow> jsstring" where
  "formatRegion reg =
     (if includesStr reg flagTW
         \<or> includesStr (toLowerCase reg) (ascii ''taiwan'')
         \<or> includesStr reg nameZh
      then replaceAll id nameZh (ascii ''Taiwan'')
             (replaceAll canonicalize (ascii ''taiwan'') (ascii ''Taiwan'')
                (replaceAll id flagTW flagUN reg))
      else reg)"

text \<open>The line of the card that shows the region: \<open>{formatRegion(node.region)}\<close>.\<close>

definition regionLine :: "NodeData \<Rightarrow> jsstring" where
  "regionLine node = formatRegion (region node)"

section \<open>Online indicator and usage percentages (\<open>NodeCard.tsx\<close>)\<close>

text \<open>\<open>const isOnline = node.status === 'online'\<close>.\<close>

definition isOnline :: "NodeData \<Rightarrow> bool" where
  "isOnline node = (status node = Some Online)"

text \<open>
  What the card derives from \<open>isOnline\<close>: the border class, the icon class, whether the
  pulsing dot is drawn, the variant and class of the badge, and its text (U+5728 U+7EBF
  for online, U+79BB U+7EBF for offline).
\<close>

record Indicator =
  borderClass :: jsstring
  iconClass :: jsstring
  pulse :: bool
  badgeVariant :: jsstring
  badgeClass :: jsstring
  badgeText :: jsstring

definition indicator :: "NodeData \<Rightarrow> Indicator" where
  "indicator node =
     \<lparr> borderClass =
         (if isOnline node then ascii ''border-l-green-500'' else ascii ''border-l-red-500''),
       iconClass = (if isOnline node then ascii ''text-green-500'' else ascii ''text-red-500''),
       pulse = isOnline node,
       badgeVariant = (if isOnline node then ascii ''default'' else ascii ''secondary''),
       badgeClass =
         (if isOnline node then ascii ''bg-green-100 text-green-800 hover:bg-green-200''
          else ascii ''bg-red-100 text-red-800 hover:bg-red-200''),
       badgeText = (if isOnline node then [0x5728, 0x7EBF] else [0x79BB, 0x7EBF]) \<rparr>"

text \<open>
  \<open>{((stats.ram.used / stats.ram.total) * 100).toFixed(1)}%\<close> and the same for the
  disk, drawn when \<open>stats\<close> is present.
\<close>

definition percentText :: "jsnum \<Rightarrow> jsstring option" where
  "percentText v = (case toFixed 1 v of None \<Rightarrow> None | Some t \<Rightarrow> Some (t @ ascii ''%''))"

definition ramPercent :: "NodeStats \<Rightarrow> jsstring option" where
  "ramPercent s = percentText (ramUsage s)"

definition diskPercent :: "NodeStats \<Rightarrow> jsstring option" where
  "diskPercent s = percentText (diskUsage s)"

text \<open>
  Two neighbours that guard their value.
  \<open>stats.network.totalUp ? formatBytes(stats.network.totalUp) : 'N/A'\<close> in the card, and
  in \<open>App.tsx\<close>
  \<open>{nodes.length > 0 ? ((onlineCount / nodes.length) * 100).toFixed(1) : 0}%\<close>.
\<close>

definition trafficText :: "jsnum \<Rightarrow> jsstring option" where
  "trafficText v = (if truthy v then formatBytes v else Some (ascii ''N/A''))"

definition availabilityText :: "jsnum \<Rightarrow> nat \<Rightarrow> jsstring option" where
  "availabilityText onlineCount n =
     (if 0 < n then percentText (jsMul (jsDiv onlineCount (Num (real n))) (Num 100))
      else Some (ascii ''0%''))"

section \<open>Fleet network totals (\<open>App.tsx\<close>, \<open>getTotalNetworkStats\<close>)\<close>

text \<open>
  The object that is returned. Its fields \<open>totalUp\<close> and \<open>totalDown\<close> are named
  \<open>totalUp_sum\<close> and \<open>totalDown_sum\<close>: the counters \<open>totalUp\<close> and \<open>totalDown\<close>
  of \<open>Network\<close> are summed into \<open>totalUpTraffic\<close> and \<open>totalDownTraffic\<close>.
\<close>

record NetworkTotals =
  totalUp_sum :: jsnum
  totalDown_sum :: jsnum
  totalUpTraffic :: jsnum
  totalDownTraffic :: jsnum

text \<open>\<open>x || 0\<close>.\<close>

definition orZero :: "jsnum \<Rightarrow> jsnum" where
  "orZero x = (if truthy x then x else Num 0)"

text \<open>
  The body of the \<open>forEach\<close>:
  \<^verbatim>\<open>if (node.status === 'online' && node.stats?.network) {
    totalUp += node.stats.network.up || 0;
    totalDown += node.stats.network.down || 0;
    totalUpTraffic += node.stats.network.totalUp || 0;
    totalDownTraffic += node.stats.network.totalDown || 0;
  }\<close>
\<close>

definition addNode :: "NetworkTotals \<Rightarrow> NodeData \<Rightarrow> NetworkTotals" where
  "addNode acc node =
     (if status node = Some Online then
        (case stats node of
           None \<Rightarrow> acc
         | Some s \<Rightarrow>
             (case network s of
                None \<Rightarrow> acc
              | Some nw \<Rightarrow>
                  \<lparr> totalUp_sum = jsAdd (totalUp_sum acc) (orZero (up nw)),
                    totalDown_sum = jsAdd (totalDown_sum acc) (orZero (down nw)),
                    totalUpTraffic = jsAdd (totalUpTraffic acc) (orZero (totalUp nw)),
                    totalDownTraffic = jsAdd (totalDownTraffic acc) (orZero (totalDown nw)) \<rparr>))
      else acc)"

definition zeroTotals :: NetworkTotals where
  "zeroTotals =
     \<lparr> totalUp_sum = Num 0, totalDown_sum = Num 0,
       totalUpTraffic = Num 0, totalDownTraffic = Num 0 \<rparr>"

definition getTotalNetworkStats :: "NodeData list \<Rightarrow> NetworkTotals" where
  "getTotalNetworkStats nodes = foldl addNode zeroTotals nodes"

text \<open>
  The same totals in the words of the specification: the network counters of exactly the
  records whose status is \<open>online\<close> and whose network statistics are present, in the
  order of the records, and the sum of a list of numbers from zero.
\<close>

definition onlineNetworks :: "NodeData list \<Rightarrow> Network list" where
  "onlineNetworks nodes =
     List.map_filter
       (\<lambda>node. if status node = Some Online
               then (case stats node of None \<Rightarrow> None | Some s \<Rightarrow> network s)
               else None)
       nodes"

definition jsSum :: "jsnum list \<Rightarrow> jsnum" where
  "jsSum xs = foldl jsAdd (Num 0) xs"

section \<open>Theme restoration (\<open>useTheme.tsx\<close>, \<open>ThemeProvider\<close>)\<close>

text \<open>
  The type \<open>Theme\<close> is a union of eight string literals; a value read from
  \<open>localStorage\<close> is any string, or \<open>null\<close> when the key is absent.
\<close>

definition themeIds :: "jsstring list" where
  "themeIds =
     [ascii ''clean'', ascii ''sunrise'', ascii ''green-mountain'', ascii ''blue-water'',
      ascii ''night'', ascii ''material-indigo'', ascii ''material-pink'',
      ascii ''material-teal'']"

definition defaultTheme :: jsstring where
  "defaultTheme = ascii ''clean''"

definition storageKey :: jsstring where
  "storageKey = ascii ''komari-theme''"

type_synonym storage = "jsstring \<rightharpoonup> jsstring"

text \<open>
  The first effect, run once after the first render, in which \<open>theme\<close> is the default:
  \<^verbatim>\<open>const savedTheme = localStorage.getItem('komari-theme') as Theme;
  if (savedTheme && [...].includes(savedTheme)) { setTheme(savedTheme); }\<close>
  The result is the theme of the next render. An empty string is falsy.
\<close>

definition restoreTheme :: "storage \<Rightarrow> jsstring \<Rightarrow> jsstring" where
  "restoreTheme ls theme =
     (case ls storageKey of
        None \<Rightarrow> theme
      | Some savedTheme \<Rightarrow>
          if savedTheme \<noteq> [] \<and> savedTheme \<in> set themeIds then savedTheme else theme)"

text \<open>
  The second effect, run after every render in which \<open>theme\<close> has changed, and after
  the first: it ends with \<open>localStorage.setItem('komari-theme', theme)\<close>.
\<close>

definition persistTheme :: "storage \<Rightarrow> jsstring \<Rightarrow> storage" where
  "persistTheme ls theme = ls(storageKey \<mapsto> theme)"

text \<open>
  Mounting the provider: both effects run after the first render, the first one reading
  the storage before the second one writes the default; when the theme has changed the
  provider renders again and the second effect writes the restored theme.
\<close>

definition mountThemeProvider :: "storage \<Rightarrow> jsstring \<times> storage" where
  "mountThemeProvider ls =
     (let theme = restoreTheme ls defaultTheme;
          ls1 = persistTheme ls defaultTheme
      in if theme = defaultTheme then (theme, ls1) else (theme, persistTheme ls1 theme))"

section \<open>Example records\<close>

text \<open>A node with empty strings, zero numbers, no status and no statistics.\<close>

definition blankStats :: NodeStats where
  "blankStats =
     \<lparr> cpu = \<lparr> usage = Num 0 \<rparr>,
       ram = \<lparr> total_bytes = Num 0, used = Num 0 \<rparr>,
       swap = \<lparr> total_bytes = Num 0, used = Num 0 \<rparr>,
       disk = \<lparr> total_bytes = Num 0, used = Num 0 \<rparr>,
       network = None,
       load = \<lparr> load1 = Num 0, load5 = Num 0, load15 = Num 0 \<rparr>,
       uptime = Num 0, process = Num 0,
       connections = \<lparr> tcp = Num 0, udp = Num 0 \<rparr> \<rparr>"

definition blankNode :: NodeData where
  "blankNode =
     \<lparr> uuid = [], name = [], cpu_name = [], virtualization = [], arch = [],
       cpu_cores = Num 0, os = [], gpu_name = [], region = [], mem_total = Num 0,
       swap_total = Num 0, disk_total = Num 0, weight = Num 0, price = Num 0,
       billing_cycle = Num 0, currency = [], expired_at = [], group_label = [], tags = [],
       created_at = [], updated_at = [], status = None, stats = None \<rparr>"

text \<open>An online node that reports the four network counters given.\<close>

definition reporting :: "jsstring \<Rightarrow> real \<Rightarrow> real \<Rightarrow> real \<Rightarrow> real \<Rightarrow> NodeData" where
  "reporting ident u d tu td =
     blankNode \<lparr> uuid := ident, status := Some Online,
       stats := Some (blankStats \<lparr> network :=
         Some \<lparr> up = Num u, down = Num d, totalUp = Num tu, totalDown = Num td \<rparr> \<rparr>) \<rparr>"

text \<open>
  A fleet of three: \<open>a\<close> and \<open>b\<close> are online and report, \<open>c\<close> has never
  reported.
\<close>

definition fleetABC :: "NodeData list" where
  "fleetABC =
     [reporting (ascii ''a'') 1 2 3 4, reporting (ascii ''b'') 10 20 30 40,
      blankNode \<lparr> uuid := ascii ''c'' \<rparr>]"

text \<open>A node whose status field is absent although it carries network statistics.\<close>

definition statusless :: NodeData where
  "statusless = (reporting (ascii ''d'') 5 6 7 8) \<lparr> status := None \<rparr>"

section \<open>Evaluation rules\<close>

text \<open>
  The recursive functions are unfolded under their guards only, so that the simplifier
  evaluates them on numerals and stops.
\<close>

lemma digits_small: "n < 10 \<Longrightarrow> digits n = [48 + n]"
  by (simp add: digits.simps)

lemma digits_step: "10 \<le> n \<Longrightarrow> digits n = digits (n div 10) @ [48 + n mod 10]"
  by (subst digits.simps) simp

lemma floorLogNat_base: "k < 2 \<or> n < k \<Longrightarrow> floorLogNat k n = 0"
  by (subst floorLogNat.simps) simp

lemma floorLogNat_step:
  "2 \<le> k \<Longrightarrow> k \<le> n \<Longrightarrow> floorLogNat k n = Suc (floorLogNat k (n div k))"
  by (subst floorLogNat.simps) simp

lemma shortest_numeral:
  "shortest (numeral f) x n k =
     (case pickDigits x (powInt 10 (n - int k)) \<lfloor>x / powInt 10 (n - int k)\<rfloor> of
        None \<Rightarrow> shortest (pred_numeral f) x n (Suc k)
      | Some s \<Rightarrow> if s = 10 ^ k then Some (10 ^ (k - 1), k, n + 1) else Some (nat s, k, n))"
  by (simp add: numeral_eq_Suc)

lemma replicate_numeral: "replicate (numeral k) x = x # replicate (pred_numeral k) x"
  by (simp add: numeral_eq_Suc)

lemmas round64_simps =
  round64_def ulp_def powInt_def roundHalfEven_def floorLogPos_def floorLogNat_base
  floorLogNat_step Let_def

lemmas number_string_simps =
  round64_simps digits_small digits_step shortest_numeral fits_def pickDigits_def
  replicate_numeral render_def toFixed_def fixedNotation_def parseFloat_def
  isWhiteSpace_def unsignedLiteral_def startsWith_def isDigit_def exponentPart_def
  numToString_def jsNeg_def ascii_def

lemmas format_simps =
  number_string_simps nearPower_def formatBytes_def formatSpeed_def formatUptime_def
  atIndex_def stringOf_def daysSuffix_def hoursSuffix_def truncate_real_def

section \<open>The floor of the logarithm\<close>

text \<open>
  \<open>floorLogPos k x\<close> is the whole number \<open>z\<close> with \<open>k^z \<le> x < k^(z+1)\<close>, that is,
  the floor of \<open>ln x / ln k\<close>; where \<open>floorLog\<close> has a value, that value is a valid
  index of a table of \<open>n\<close> units exactly for \<open>1 \<le> x < k^n\<close>.
\<close>

lemma floorLogNat_bounds:
  "2 \<le> k \<Longrightarrow> 0 < n \<Longrightarrow> k ^ floorLogNat k n \<le> n \<and> n < k ^ Suc (floorLogNat k n)"
proof (induction k n rule: floorLogNat.induct)
  case (1 k n)
  show ?case
  proof (cases "n < k")
    case True
    with "1.prems" show ?thesis
      by (simp add: floorLogNat_base)
  next
    case False
    then have kn: "k \<le> n" by simp
    define m where "m = n div k"
    have mpos: "0 < m"
      unfolding m_def using kn "1.prems"(1) by (simp add: div_greater_zero_iff)
    have step: "floorLogNat k n = Suc (floorLogNat k m)"
      unfolding m_def using "1.prems"(1) kn by (rule floorLogNat_step)
    have "\<not> (k < 2 \<or> n < k)" using "1.prems"(1) False by simp
    from "1.IH" [OF this "1.prems"(1)] mpos
    have ih: "k ^ floorLogNat k m \<le> m" "m < k ^ Suc (floorLogNat k m)"
      unfolding m_def by simp_all
    have "k * m \<le> n" unfolding m_def by simp
    with ih(1) have lo: "k ^ Suc (floorLogNat k m) \<le> n"
      by (metis mult_le_mono2 order_trans power_Suc)
    have "0 < k" using "1.prems"(1) by simp
    then have "n < k + k * (n div k)" by (rule dividend_less_times_div)
    then have "n < k * (m + 1)" by (simp add: m_def)
    moreover have "m + 1 \<le> k ^ Suc (floorLogNat k m)" using ih(2) by simp
    then have "k * (m + 1) \<le> k * k ^ Suc (floorLogNat k m)" by (rule mult_le_mono2)
    ultimately have hi: "n < k ^ Suc (Suc (floorLogNat k m))" by simp
    from lo hi show ?thesis by (simp only: step) 
  qed
qed

lemma floorLogPos_bounds:
  assumes k: "2 \<le> k" and x: "0 < x"
  shows "real k powr real_of_int (floorLogPos k x) \<le> x
       \<and> x < real k powr (real_of_int (floorLogPos k x) + 1)"
proof (cases "1 \<le> x")
  case True
  define n where "n = nat \<lfloor>x\<rfloor>"
  define f where "f = floorLogNat k n"
  have kpos: "0 < real k" using k by simp
  have fl: "1 \<le> \<lfloor>x\<rfloor>" using True by simp
  then have npos: "0 < n" by (simp add: n_def)
  have rn: "real n = real_of_int \<lfloor>x\<rfloor>" using fl by (simp add: n_def)
  have nx: "real n \<le> x" by (simp add: rn)
  have xn: "x < real n + 1" by (simp add: rn)
  from floorLogNat_bounds [OF k npos] have b: "k ^ f \<le> n" "n < k ^ Suc f"
    by (simp_all add: f_def)
  have "real k ^ f = real (k ^ f)" by simp
  also have "\<dots> \<le> real n" using b(1) by (simp only: of_nat_le_iff)
  also note nx
  finally have lo: "real k ^ f \<le> x" .
  from b(2) have "n + 1 \<le> k ^ Suc f" by simp
  then have "real (n + 1) \<le> real (k ^ Suc f)" by (simp only: of_nat_le_iff)
  then have "real n + 1 \<le> real k ^ Suc f" by simp
  with xn have hi: "x < real k ^ Suc f" by linarith
  have fp: "floorLogPos k x = int f"
    using True by (simp add: floorLogPos_def f_def n_def)
  have p1: "real k powr real_of_int (int f) = real k ^ f"
    using kpos by (simp add: powr_realpow)
  have "real_of_int (int f) + 1 = real (Suc f)" by simp
  then have p2: "real k powr (real_of_int (int f) + 1) = real k ^ Suc f"
    using kpos by (simp only: powr_realpow)
  from lo hi show ?thesis
    by (simp only: fp p1 p2 simp_thms)
next
  case False
  define m where "m = nat \<lceil>1 / x\<rceil>"
  define f where "f = floorLogNat k (m - 1)"
  have kpos: "0 < real k" using k by simp
  from False x have inv: "1 < 1 / x" by simp
  then have "1 < \<lceil>1 / x\<rceil>" by (simp add: less_ceiling_iff)
  then have m2: "2 \<le> m" unfolding m_def by arith
  have rm: "real m = real_of_int \<lceil>1 / x\<rceil>"
    using m2 by (simp add: m_def)
  have up: "1 / x \<le> real m" by (simp add: rm)
  have dn: "real m - 1 < 1 / x"
    unfolding rm by linarith
  have "0 < m - 1" using m2 by simp
  from floorLogNat_bounds [OF k this] have b: "k ^ f \<le> m - 1" "m - 1 < k ^ Suc f"
    by (simp_all add: f_def)
  from b(2) m2 have "m \<le> k ^ Suc f" by simp
  then have "real m \<le> real (k ^ Suc f)" by (simp only: of_nat_le_iff)
  then have "real m \<le> real k ^ Suc f" by simp
  with up have "1 / x \<le> real k ^ Suc f" by linarith
  then have lo: "1 / real k ^ Suc f \<le> x"
    using x kpos by (simp add: field_simps)
  have "real k ^ f = real (k ^ f)" by simp
  also have "\<dots> \<le> real (m - 1)" using b(1) by (simp only: of_nat_le_iff)
  also have "\<dots> = real m - 1" using m2 by simp
  finally have "real k ^ f \<le> real m - 1" .
  with dn have "real k ^ f < 1 / x" by linarith
  then have hi: "x < 1 / real k ^ f"
    using x kpos by (simp add: field_simps)
  have fp: "floorLogPos k x = - int (Suc f)"
    using False by (simp add: floorLogPos_def f_def m_def)
  have p1: "real k powr real_of_int (- int (Suc f)) = 1 / real k ^ Suc f"
  proof -
    have "real_of_int (- int (Suc f)) = - real (Suc f)" by simp
    then show ?thesis
      using kpos by (simp only: powr_minus_divide powr_realpow)
  qed
  have p2: "real k powr (real_of_int (- int (Suc f)) + 1) = 1 / real k ^ f"
  proof -
    have "real_of_int (- int (Suc f)) + 1 = - real f" by simp
    then show ?thesis
      using kpos by (simp only: powr_minus_divide powr_realpow)
  qed
  from lo hi show ?thesis
    by (simp only: fp p1 p2 simp_thms)
qed

lemma floorLogPos_ln:
  assumes "2 \<le> k" and "0 < x"
  shows "floorLogPos k x = \<lfloor>ln x / ln (real k)\<rfloor>"
proof -
  have k1: "1 < real k" using assms(1) by simp
  have "real k powr real_of_int (floorLogPos k x) \<le> x
      \<and> x < real k powr real_of_int (floorLogPos k x + 1)"
    using floorLogPos_bounds [OF assms] by simp
  then have "\<lfloor>log (real k) x\<rfloor> = floorLogPos k x"
    by (rule floor_log_eq_powr_iff [OF assms(2) k1, THEN iffD2])
  then show ?thesis
    by (simp add: log_def)
qed

lemma floorLogPos_range:
  assumes k: "2 \<le> k" and x: "0 < x"
  shows "(0 \<le> floorLogPos k x \<and> floorLogPos k x < int n) = (1 \<le> x \<and> x < real k ^ n)"
proof -
  define z where "z = floorLogPos k x"
  have k1: "1 < real k" using k by simp
  from floorLogPos_bounds [OF k x]
  have lo: "real k powr real_of_int z \<le> x" and hi: "x < real k powr (real_of_int z + 1)"
    by (simp_all add: z_def)
  have pn: "real k powr real n = real k ^ n"
    using k1 by (simp add: powr_realpow)
  have "(0 \<le> z \<and> z < int n) = (1 \<le> x \<and> x < real k ^ n)"
  proof
    assume a: "0 \<le> z \<and> z < int n"
    then have "real k powr 0 \<le> real k powr real_of_int z"
      using k1 by (simp only: powr_le_cancel_iff) simp
    with lo have "1 \<le> x" using k1 by simp
    moreover from a have "real_of_int z + 1 \<le> real n" by linarith
    then have "real k powr (real_of_int z + 1) \<le> real k powr real n"
      using k1 by (simp only: powr_le_cancel_iff)
    with hi have "x < real k ^ n" by (simp only: pn)
    ultimately show "1 \<le> x \<and> x < real k ^ n" by simp
  next
    assume a: "1 \<le> x \<and> x < real k ^ n"
    with hi have "real k powr 0 < real k powr (real_of_int z + 1)"
      using k1 by simp
    then have "0 < real_of_int z + 1"
      using k1 by (simp only: powr_less_cancel_iff)
    then have z0: "0 \<le> z" by linarith
    from a lo have "real k powr real_of_int z < real k powr real n"
      by (simp only: pn) linarith
    then have "real_of_int z < real n"
      using k1 by (simp only: powr_less_cancel_iff)
    then have "z < int n" by linarith
    with z0 show "0 \<le> z \<and> z < int n" by simp
  qed
  then show ?thesis by (simp only: z_def)
qed

lemma unit_undefined_iff:
  assumes "0 < x" and "floorLog 1024 (Num x) = Some i"
  shows "(atIndex sizes i = None) = (x < 1 \<or> 1024 ^ length sizes \<le> x)"
proof -
  have i: "i = Num (of_int (floorLogPos 1024 x))"
    using assms by (simp split: if_splits)
  have r: "(0 \<le> floorLogPos 1024 x \<and> floorLogPos 1024 x < int (length sizes)) =
      (1 \<le> x \<and> x < real 1024 ^ length sizes)"
    by (rule floorLogPos_range) (simp_all add: assms)
  have "(atIndex sizes i = None) =
      (\<not> (0 \<le> floorLogPos 1024 x \<and> floorLogPos 1024 x < int (length sizes)))"
    unfolding i by (simp add: atIndex_def) linarith
  also have "\<dots> = (x < 1 \<or> 1024 ^ length sizes \<le> x)"
    unfolding r by (simp add: not_le not_less)
  finally show ?thesis .
qed

section \<open>Rounding to binary64\<close>


lemma roundHalfEven_of_int: "roundHalfEven (of_int k) = k"
  by (simp add: roundHalfEven_def)



lemma round64_of_int:
  assumes "\<bar>n\<bar> \<le> 2 ^ 53"
  shows "round64 (of_int n) = Num (of_int n)"
proof (cases "n = 0")
  case True
  then show ?thesis by (simp add: round64_def)
next
  case False
  define N where "N = nat \<bar>n\<bar>"
  define f where "f = floorLogNat 2 N"
  have Npos: "0 < N" using False by (simp add: N_def)
  have N53: "N \<le> 2 ^ 53" using assms by (simp add: N_def nat_le_iff)
  have b: "2 ^ f \<le> N" "N < 2 ^ Suc f"
    using floorLogNat_bounds [of 2 N] Npos by (simp_all add: f_def)
  from b(1) N53 have "(2::nat) ^ f \<le> 2 ^ 53" by linarith
  then have f53: "f \<le> 53"
    by (rule power_le_imp_le_exp [rotated]) simp
  have ax: "\<bar>real_of_int n\<bar> = real N"
    by (simp add: N_def)
  have "1 \<le> real N" using Npos by simp
  then have fl: "floorLogPos 2 \<bar>real_of_int n\<bar> = int f"
    by (simp add: ax floorLogPos_def f_def)
  have u: "ulp (of_int n) = powInt 2 (int f - 52)"
    by (simp add: ulp_def fl max_def)
  have "\<exists>k. real_of_int n / ulp (of_int n) = of_int k"
  proof (cases "f \<le> 52")
    case True
    then have "ulp (of_int n) = 1 / 2 ^ (52 - f)"
      by (simp add: u powInt_def) (metis nat_minus_as_int of_nat_numeral)
    then have "real_of_int n / ulp (of_int n) = of_int (n * 2 ^ (52 - f))"
      by simp
    then show ?thesis by blast
  next
    case False
    with f53 have f: "f = 53" by simp
    with b(1) N53 have "N = 2 ^ 53" by simp
    then have "\<bar>n\<bar> = 2 ^ 53" by (simp add: N_def)
    then have n: "n = 2 ^ 53 \<or> n = - (2 ^ 53)" by linarith
    have "ulp (of_int n) = 2"
      by (simp add: u f powInt_def)
    with n have "real_of_int n / ulp (of_int n) = of_int (n div 2)"
      by auto
    then show ?thesis by blast
  qed
  then obtain k where k: "real_of_int n / ulp (of_int n) = of_int k" by blast
  have upos: "0 < ulp (of_int n)"
    by (simp add: u powInt_def)
  have r: "of_int (roundHalfEven (real_of_int n / ulp (of_int n))) * ulp (of_int n) = of_int n"
    unfolding k roundHalfEven_of_int
    using k upos by (simp add: field_simps)
  have "\<bar>real_of_int n\<bar> \<le> 2 ^ 53"
    using N53 by (simp add: ax)
  moreover have "(2::real) ^ 53 < 2 ^ 1024" by simp
  ultimately have "\<bar>real_of_int n\<bar> < 2 ^ 1024" by linarith
  then show ?thesis
    using False by (simp add: round64_def Let_def r)
qed

lemma round64_of_nat:
  assumes "n \<le> 2 ^ 53"
  shows "round64 (real n) = Num (real n)"
proof -
  have "\<bar>int n\<bar> \<le> 2 ^ 53"
    using assms by (simp add: le_nat_iff [symmetric] nat_le_iff)
  then have "round64 (of_int (int n)) = Num (of_int (int n))"
    by (rule round64_of_int)
  then show ?thesis by simp
qed





section \<open>Numbers as strings: examples\<close>

text \<open>
  Above \<open>2^53\<close> the string has the shortest digits that identify the binary64 value,
  not all the digits of the whole number: \<open>2^64\<close> is 18446744073709551616 and is
  written 18446744073709552000. From \<open>10^21\<close> the exponent is written out. A
  decimal that is not a binary64 value is read as the nearest one and written back with
  its own digits.
\<close>

lemma numToString_examples:
  "numToString (Num (2 ^ 64)) = Some (ascii ''18446744073709552000'')"
  "numToString (Num (10 ^ 21)) = Some (ascii ''1e+21'')"
  "parseFloat (ascii ''1023.99'') = Num (4503555646905385 / 2 ^ 42)"
  "numToString (Num (4503555646905385 / 2 ^ 42)) = Some (ascii ''1023.99'')"
  "numToString (Num (3 / 2)) = Some (ascii ''1.5'')"
  by (simp_all add: number_string_simps)

section \<open>Status classification: thresholds\<close>

lemma jsGt_not_jsGe: "jsGt (Num a) x \<Longrightarrow> a \<le> b \<Longrightarrow> \<not> jsGe x (Num b)"
  by (cases x) auto

lemma jsGt_jsGe: "jsGt x (Num a) \<Longrightarrow> b \<le> a \<Longrightarrow> jsGe x (Num b)"
  by (cases x) auto

text \<open>
  The ratio that is classified is the one the program computes, the quotient and the
  product each rounded to binary64. Over the reals
  \<open>850000000000011 / 1000000000000013 * 100\<close> is below 85 and
  \<open>6000000000000002 / 8000000000000003 * 100\<close> is below 75; the program computes 85
  and 75, and the statuses are critical and warning. In the same way
  \<open>23 / 80 * 100\<close> is computed as a number below 28.75.
\<close>

lemma rounded_ratio:
  "ramUsage (blankStats \<lparr> ram :=
       \<lparr> total_bytes = Num 1000000000000013, used = Num 850000000000011 \<rparr> \<rparr>) = Num 85
   \<and> ramStatus (blankNode \<lparr> stats := Some (blankStats \<lparr> ram :=
       \<lparr> total_bytes = Num 1000000000000013, used = Num 850000000000011 \<rparr> \<rparr>) \<rparr>) = Critical
   \<and> diskUsage (blankStats \<lparr> disk :=
       \<lparr> total_bytes = Num 8000000000000003, used = Num 6000000000000002 \<rparr> \<rparr>) = Num 75
   \<and> diskStatus (blankNode \<lparr> stats := Some (blankStats \<lparr> disk :=
       \<lparr> total_bytes = Num 8000000000000003, used = Num 6000000000000002 \<rparr> \<rparr>) \<rparr>) = Warning
   \<and> jsMul (jsDiv (Num 23) (Num 80)) (Num 100) = Num (8092405580431359 / 2 ^ 48)
   \<and> (8092405580431359 / 2 ^ 48 :: real) < 28.75"
  by (simp add: ramStatus_def ramUsage_def diskStatus_def diskUsage_def blankNode_def
      blankStats_def round64_simps)

text \<open>
  The ratios at the thresholds, on used and total bytes: 85 of 100 is critical, 84.99 a
  warning, 70 a warning and 69.99 normal for the memory; 90, 89.99, 75 and 74.99 in the
  same way for the disk.
\<close>

lemma ratio_boundaries:
  "ramStatus (blankNode \<lparr> stats := Some (blankStats \<lparr> ram :=
       \<lparr> total_bytes = Num 100, used = Num 85 \<rparr> \<rparr>) \<rparr>) = Critical
   \<and> ramStatus (blankNode \<lparr> stats := Some (blankStats \<lparr> ram :=
       \<lparr> total_bytes = Num 10000, used = Num 8499 \<rparr> \<rparr>) \<rparr>) = Warning
   \<and> ramStatus (blankNode \<lparr> stats := Some (blankStats \<lparr> ram :=
       \<lparr> total_bytes = Num 100, used = Num 70 \<rparr> \<rparr>) \<rparr>) = Warning
   \<and> ramStatus (blankNode \<lparr> stats := Some (blankStats \<lparr> ram :=
       \<lparr> total_bytes = Num 10000, used = Num 6999 \<rparr> \<rparr>) \<rparr>) = Normal
   \<and> diskStatus (blankNode \<lparr> stats := Some (blankStats \<lparr> disk :=
       \<lparr> total_bytes = Num 100, used = Num 90 \<rparr> \<rparr>) \<rparr>) = Critical
   \<and> diskStatus (blankNode \<lparr> stats := Some (blankStats \<lparr> disk :=
       \<lparr> total_bytes = Num 10000, used = Num 8999 \<rparr> \<rparr>) \<rparr>) = Warning
   \<and> diskStatus (blankNode \<lparr> stats := Some (blankStats \<lparr> disk :=
       \<lparr> total_bytes = Num 100, used = Num 75 \<rparr> \<rparr>) \<rparr>) = Warning
   \<and> diskStatus (blankNode \<lparr> stats := Some (blankStats \<lparr> disk :=
       \<lparr> total_bytes = Num 10000, used = Num 7499 \<rparr> \<rparr>) \<rparr>) = Normal"
  by (simp add: ramStatus_def ramUsage_def diskStatus_def diskUsage_def blankNode_def
      blankStats_def round64_simps)

text \<open>
  Claim C1. With statistics present, the CPU usage is critical from 80 and a warning
  from 60; the RAM ratio, as the program computes it (\<open>ramUsage\<close>, the rounded
  \<open>used / total * 100\<close>), is critical from 85 and a warning from 70; the disk ratio
  (\<open>diskUsage\<close>) is critical from 90 and a warning from 75; below the warning
  threshold the status is normal. At the boundaries a CPU usage of 80 is critical, 60 is
  a warning and 59.999 is normal.
\<close>

theorem status_thresholds:
  assumes "stats node = Some s"
  shows "(usage (cpu s) = Num r \<longrightarrow>
            cpuStatus node =
              (if 80 \<le> r then Critical else if 60 \<le> r then Warning else Normal))
       \<and> (ramUsage s = Num m \<longrightarrow>
            ramStatus node =
              (if 85 \<le> m then Critical else if 70 \<le> m then Warning else Normal))
       \<and> (diskUsage s = Num d \<longrightarrow>
            diskStatus node =
              (if 90 \<le> d then Critical else if 75 \<le> d then Warning else Normal))
       \<and> (usage (cpu s) = Num 80 \<longrightarrow> cpuStatus node = Critical)
       \<and> (usage (cpu s) = Num 60 \<longrightarrow> cpuStatus node = Warning)
       \<and> (usage (cpu s) = Num 59.999 \<longrightarrow> cpuStatus node = Normal)"
proof -
  have c: "usage (cpu s) = Num x \<Longrightarrow>
      cpuStatus node = (if 80 \<le> x then Critical else if 60 \<le> x then Warning else Normal)"
    for x
    using assms by (simp add: cpuStatus_def)
  have m: "ramUsage s = Num m \<longrightarrow>
      ramStatus node =
        (if 85 \<le> m then Critical else if 70 \<le> m then Warning else Normal)"
    using assms by (simp add: ramStatus_def)
  have d: "diskUsage s = Num d \<longrightarrow>
      diskStatus node =
        (if 90 \<le> d then Critical else if 75 \<le> d then Warning else Normal)"
    using assms by (simp add: diskStatus_def)
  from c [of r] c [of 80] c [of 60] c [of "59.999"] m d show ?thesis
    by simp
qed

theorem status_thresholds_witness:
  "stats (blankNode \<lparr> stats := Some (blankStats \<lparr>
       cpu := \<lparr> usage = Num 80 \<rparr>,
       ram := \<lparr> total_bytes = Num 100, used = Num 70 \<rparr>,
       disk := \<lparr> total_bytes = Num 200, used = Num 100 \<rparr> \<rparr>) \<rparr>)
     = Some (blankStats \<lparr>
       cpu := \<lparr> usage = Num 80 \<rparr>,
       ram := \<lparr> total_bytes = Num 100, used = Num 70 \<rparr>,
       disk := \<lparr> total_bytes = Num 200, used = Num 100 \<rparr> \<rparr>)
   \<and> ramUsage (blankStats \<lparr>
       cpu := \<lparr> usage = Num 80 \<rparr>,
       ram := \<lparr> total_bytes = Num 100, used = Num 70 \<rparr>,
       disk := \<lparr> total_bytes = Num 200, used = Num 100 \<rparr> \<rparr>) = Num 70
   \<and> diskUsage (blankStats \<lparr>
       cpu := \<lparr> usage = Num 80 \<rparr>,
       ram := \<lparr> total_bytes = Num 100, used = Num 70 \<rparr>,
       disk := \<lparr> total_bytes = Num 200, used = Num 100 \<rparr> \<rparr>) = Num 50
   \<and> cpuStatus (blankNode \<lparr> stats := Some (blankStats \<lparr>
       cpu := \<lparr> usage = Num 80 \<rparr>,
       ram := \<lparr> total_bytes = Num 100, used = Num 70 \<rparr>,
       disk := \<lparr> total_bytes = Num 200, used = Num 100 \<rparr> \<rparr>) \<rparr>) = Critical
   \<and> ramStatus (blankNode \<lparr> stats := Some (blankStats \<lparr>
       cpu := \<lparr> usage = Num 80 \<rparr>,
       ram := \<lparr> total_bytes = Num 100, used = Num 70 \<rparr>,
       disk := \<lparr> total_bytes = Num 200, used = Num 100 \<rparr> \<rparr>) \<rparr>) = Warning
   \<and> diskStatus (blankNode \<lparr> stats := Some (blankStats \<lparr>
       cpu := \<lparr> usage = Num 80 \<rparr>,
       ram := \<lparr> total_bytes = Num 100, used = Num 70 \<rparr>,
       disk := \<lparr> total_bytes = Num 200, used = Num 100 \<rparr> \<rparr>) \<rparr>) = Normal"
proof -
  have u: "ramUsage (blankStats \<lparr>
       cpu := \<lparr> usage = Num 80 \<rparr>,
       ram := \<lparr> total_bytes = Num 100, used = Num 70 \<rparr>,
       disk := \<lparr> total_bytes = Num 200, used = Num 100 \<rparr> \<rparr>) = Num 70"
    by (simp add: ramUsage_def blankStats_def round64_simps)
  have v: "diskUsage (blankStats \<lparr>
       cpu := \<lparr> usage = Num 80 \<rparr>,
       ram := \<lparr> total_bytes = Num 100, used = Num 70 \<rparr>,
       disk := \<lparr> total_bytes = Num 200, used = Num 100 \<rparr> \<rparr>) = Num 50"
    by (simp add: diskUsage_def blankStats_def round64_simps)
  from u v status_thresholds
    [of "blankNode \<lparr> stats := Some (blankStats \<lparr>
           cpu := \<lparr> usage = Num 80 \<rparr>,
           ram := \<lparr> total_bytes = Num 100, used = Num 70 \<rparr>,
           disk := \<lparr> total_bytes = Num 200, used = Num 100 \<rparr> \<rparr>) \<rparr>"
        "blankStats \<lparr>
           cpu := \<lparr> usage = Num 80 \<rparr>,
           ram := \<lparr> total_bytes = Num 100, used = Num 70 \<rparr>,
           disk := \<lparr> total_bytes = Num 200, used = Num 100 \<rparr> \<rparr>"
        80 70 50]
  show ?thesis
    by (simp add: blankNode_def blankStats_def)
qed

text \<open>
  Claim C2. The three classifications are total functions of the node and have no
  failing branch. Without statistics each is normal. With statistics, a value below the
  warning threshold is normal, a value above 100 is critical by the same comparison, a
  \<open>NaN\<close> is normal and \<open>Infinity\<close> is critical.
\<close>

theorem classification_total:
  "(stats node = None \<longrightarrow>
      cpuStatus node = Normal \<and> ramStatus node = Normal \<and> diskStatus node = Normal)
   \<and> (stats node = Some s \<longrightarrow>
        (jsGt (Num 60) (usage (cpu s)) \<longrightarrow> cpuStatus node = Normal)
      \<and> (jsGt (Num 70) (ramUsage s) \<longrightarrow> ramStatus node = Normal)
      \<and> (jsGt (Num 75) (diskUsage s) \<longrightarrow> diskStatus node = Normal)
      \<and> (jsGt (usage (cpu s)) (Num 100) \<longrightarrow> cpuStatus node = Critical)
      \<and> (jsGt (ramUsage s) (Num 100) \<longrightarrow> ramStatus node = Critical)
      \<and> (jsGt (diskUsage s) (Num 100) \<longrightarrow> diskStatus node = Critical)
      \<and> (usage (cpu s) = NaN \<longrightarrow> cpuStatus node = Normal)
      \<and> (ramUsage s = NaN \<longrightarrow> ramStatus node = Normal)
      \<and> (diskUsage s = NaN \<longrightarrow> diskStatus node = Normal)
      \<and> (usage (cpu s) = PosInf \<longrightarrow> cpuStatus node = Critical)
      \<and> (ramUsage s = PosInf \<longrightarrow> ramStatus node = Critical)
      \<and> (diskUsage s = PosInf \<longrightarrow> diskStatus node = Critical))"
proof -
  have low: "jsGt (Num a) x \<Longrightarrow> a \<le> b \<Longrightarrow> a \<le> c \<Longrightarrow>
      (if jsGe x (Num c) then Critical else if jsGe x (Num b) then Warning else Normal) = Normal"
    for a b c x
    by (simp add: jsGt_not_jsGe)
  have high: "jsGt x (Num 100) \<Longrightarrow> c \<le> 100 \<Longrightarrow>
      (if jsGe x (Num c) then Critical else if jsGe x (Num b) then Warning else Normal) = Critical"
    for b c x
    by (simp add: jsGt_jsGe)
  show ?thesis
    by (simp add: cpuStatus_def ramStatus_def diskStatus_def low high)
qed

theorem classification_total_witness:
  "stats (blankNode \<lparr> stats := Some (blankStats \<lparr>
       cpu := \<lparr> usage = Num 250 \<rparr>,
       ram := \<lparr> total_bytes = Num 0, used = Num 0 \<rparr>,
       disk := \<lparr> total_bytes = Num 100, used = Num 10 \<rparr> \<rparr>) \<rparr>)
     = Some (blankStats \<lparr>
       cpu := \<lparr> usage = Num 250 \<rparr>,
       ram := \<lparr> total_bytes = Num 0, used = Num 0 \<rparr>,
       disk := \<lparr> total_bytes = Num 100, used = Num 10 \<rparr> \<rparr>)
   \<and> cpuStatus (blankNode \<lparr> stats := Some (blankStats \<lparr>
       cpu := \<lparr> usage = Num 250 \<rparr>,
       ram := \<lparr> total_bytes = Num 0, used = Num 0 \<rparr>,
       disk := \<lparr> total_bytes = Num 100, used = Num 10 \<rparr> \<rparr>) \<rparr>) = Critical
   \<and> ramStatus (blankNode \<lparr> stats := Some (blankStats \<lparr>
       cpu := \<lparr> usage = Num 250 \<rparr>,
       ram := \<lparr> total_bytes = Num 0, used = Num 0 \<rparr>,
       disk := \<lparr> total_bytes = Num 100, used = Num 10 \<rparr> \<rparr>) \<rparr>) = Normal
   \<and> diskStatus (blankNode \<lparr> stats := Some (blankStats \<lparr>
       cpu := \<lparr> usage = Num 250 \<rparr>,
       ram := \<lparr> total_bytes = Num 0, used = Num 0 \<rparr>,
       disk := \<lparr> total_bytes = Num 100, used = Num 10 \<rparr> \<rparr>) \<rparr>) = Normal
   \<and> stats blankNode = None
   \<and> cpuStatus blankNode = Normal \<and> ramStatus blankNode = Normal
   \<and> diskStatus blankNode = Normal"
  using classification_total
    [of "blankNode \<lparr> stats := Some (blankStats \<lparr>
           cpu := \<lparr> usage = Num 250 \<rparr>,
           ram := \<lparr> total_bytes = Num 0, used = Num 0 \<rparr>,
           disk := \<lparr> total_bytes = Num 100, used = Num 10 \<rparr> \<rparr>) \<rparr>"
        "blankStats \<lparr>
           cpu := \<lparr> usage = Num 250 \<rparr>,
           ram := \<lparr> total_bytes = Num 0, used = Num 0 \<rparr>,
           disk := \<lparr> total_bytes = Num 100, used = Num 10 \<rparr> \<rparr>"]
    classification_total [of blankNode blankStats]
  by (simp add: blankNode_def blankStats_def ramUsage_def diskUsage_def round64_simps)

section \<open>Formatting: the stated values\<close>

text \<open>
  Claim C3. \<open>formatBytes(0)\<close> is \<open>0 B\<close> and \<open>formatSpeed(0)\<close> is \<open>0 B/s\<close>, both
  returned before any logarithm is taken, and \<open>formatBytes(1536)\<close> is \<open>1.5 KB\<close>.
\<close>

theorem format_zero_and_1536:
  "formatBytes (Num 0) = Some (ascii ''0 B'')
   \<and> formatSpeed (Num 0) = Some (ascii ''0 B/s'')
   \<and> formatBytes (Num 1536) = Some (ascii ''1.5 KB'')"
proof -
  have "formatBytes (Num 0) = Some (ascii ''0 B'')"
    by (simp add: formatBytes_def)
  moreover have "formatSpeed (Num 0) = Some (ascii ''0 B/s'')"
    by (simp add: formatSpeed_def)
  moreover have "formatBytes (Num 1536) = Some (ascii ''1.5 KB'')"
    by (simp add: format_simps)
  ultimately show ?thesis by simp
qed

section \<open>Fleet network totals: the sums\<close>

lemma orZero_Num: "orZero (Num x) = Num x"
  by (simp add: orZero_def)

text \<open>
  The sums are binary64 sums: each \<open>+=\<close> rounds. Whole counters whose sum stays
  within \<open>2^53\<close> are added exactly; beyond, a sum can lose a unit.
\<close>

lemma jsAdd_rounds: "jsAdd (Num (2 ^ 53)) (Num 1) = Num (2 ^ 53)"
  by (simp add: round64_simps)

lemma foldl_jsAdd_nat:
  "a + sum_list xs \<le> 2 ^ 53 \<Longrightarrow>
     foldl jsAdd (Num (real a)) (map Num (map real xs)) = Num (real (a + sum_list xs))"
proof (induction xs arbitrary: a)
  case Nil
  then show ?case by simp
next
  case (Cons x xs)
  from Cons.prems have b: "a + x \<le> 2 ^ 53" and c: "(a + x) + sum_list xs \<le> 2 ^ 53"
    by simp_all
  have "jsAdd (Num (real a)) (Num (real x)) = round64 (real (a + x))"
    by simp
  also have "\<dots> = Num (real (a + x))"
    using b by (rule round64_of_nat)
  finally have step: "jsAdd (Num (real a)) (Num (real x)) = Num (real (a + x))" .
  have "foldl jsAdd (Num (real a)) (map Num (map real (x # xs))) =
      foldl jsAdd (jsAdd (Num (real a)) (Num (real x))) (map Num (map real xs))"
    by simp
  also have "\<dots> = Num (real ((a + x) + sum_list xs))"
    unfolding step using c by (rule Cons.IH)
  finally show ?case by (simp add: add.assoc)
qed

lemma jsSum_nat:
  assumes "sum_list xs \<le> 2 ^ 53"
  shows "jsSum (map Num (map real xs)) = Num (real (sum_list xs))"
proof -
  have "0 + sum_list xs \<le> 2 ^ 53" using assms by simp
  then have "foldl jsAdd (Num (real 0)) (map Num (map real xs)) =
      Num (real (0 + sum_list xs))"
    by (rule foldl_jsAdd_nat)
  then show ?thesis by (simp add: jsSum_def)
qed

lemma onlineNetworks_Cons:
  "onlineNetworks (node # nodes) =
     (if status node = Some Online
      then (case stats node of
              None \<Rightarrow> onlineNetworks nodes
            | Some s \<Rightarrow>
                (case network s of
                   None \<Rightarrow> onlineNetworks nodes
                 | Some nw \<Rightarrow> nw # onlineNetworks nodes))
      else onlineNetworks nodes)"
  by (simp add: onlineNetworks_def split: option.splits)

lemma onlineNetworks_Nil: "onlineNetworks [] = []"
  by (simp add: onlineNetworks_def)

lemma addNode_not_online: "status node \<noteq> Some Online \<Longrightarrow> addNode acc node = acc"
  by (simp add: addNode_def)

lemma addNode_no_stats: "stats node = None \<Longrightarrow> addNode acc node = acc"
  by (simp add: addNode_def)

lemma addNode_no_network:
  "stats node = Some s \<Longrightarrow> network s = None \<Longrightarrow> addNode acc node = acc"
  by (simp add: addNode_def)

lemma addNode_online:
  "status node = Some Online \<Longrightarrow> stats node = Some s \<Longrightarrow> network s = Some nw \<Longrightarrow>
     addNode acc node =
       \<lparr> totalUp_sum = jsAdd (totalUp_sum acc) (orZero (up nw)),
         totalDown_sum = jsAdd (totalDown_sum acc) (orZero (down nw)),
         totalUpTraffic = jsAdd (totalUpTraffic acc) (orZero (totalUp nw)),
         totalDownTraffic = jsAdd (totalDownTraffic acc) (orZero (totalDown nw)) \<rparr>"
  by (simp add: addNode_def)

lemma foldl_addNode:
  "foldl addNode acc nodes =
     \<lparr> totalUp_sum = foldl jsAdd (totalUp_sum acc) (map (\<lambda>nw. orZero (up nw)) (onlineNetworks nodes)),
       totalDown_sum = foldl jsAdd (totalDown_sum acc) (map (\<lambda>nw. orZero (down nw)) (onlineNetworks nodes)),
       totalUpTraffic =
         foldl jsAdd (totalUpTraffic acc) (map (\<lambda>nw. orZero (totalUp nw)) (onlineNetworks nodes)),
       totalDownTraffic =
         foldl jsAdd (totalDownTraffic acc) (map (\<lambda>nw. orZero (totalDown nw)) (onlineNetworks nodes)) \<rparr>"
proof (induction nodes arbitrary: acc)
  case Nil
  show ?case by (simp add: onlineNetworks_Nil)
next
  case (Cons node nodes)
  have step: "foldl addNode acc (node # nodes) = foldl addNode (addNode acc node) nodes"
    by simp
  consider (off) "status node \<noteq> Some Online"
    | (nostats) "status node = Some Online" "stats node = None"
    | (nonet) s where "status node = Some Online" "stats node = Some s" "network s = None"
    | (net) s nw where "status node = Some Online" "stats node = Some s" "network s = Some nw"
    by (cases "stats node"; cases "network (the (stats node))") auto
  then show ?case
  proof cases
    case off
    then have a: "addNode acc node = acc" by (rule addNode_not_online)
    show ?thesis unfolding step a Cons.IH using off by (simp add: onlineNetworks_Cons)
  next
    case nostats
    then have a: "addNode acc node = acc" by (simp add: addNode_no_stats)
    show ?thesis unfolding step a Cons.IH using nostats by (simp add: onlineNetworks_Cons)
  next
    case nonet
    then have a: "addNode acc node = acc" by (simp add: addNode_no_network)
    show ?thesis unfolding step a Cons.IH using nonet by (simp add: onlineNetworks_Cons)
  next
    case net
    note a = addNode_online [OF net, of acc]
    show ?thesis unfolding step a Cons.IH using net by (simp add: onlineNetworks_Cons)
  qed
qed

lemma foldl_addNode_skip:
  assumes "\<And>acc. addNode acc node = acc"
  shows "foldl addNode acc (xs @ node # ys) = foldl addNode acc (xs @ ys)"
  by (simp add: assms)

lemma map_orZero_Num:
  "map f nws = map Num xs \<Longrightarrow> map (\<lambda>nw. orZero (f nw)) nws = map Num xs"
proof -
  assume a: "map f nws = map Num xs"
  have "map (\<lambda>nw. orZero (f nw)) nws = map orZero (map f nws)" by (simp add: comp_def)
  also have "\<dots> = map orZero (map Num xs)" by (simp only: a)
  also have "\<dots> = map Num xs" by (simp add: orZero_Num)
  finally show ?thesis .
qed

text \<open>
  Claim C7. For every sequence of records the four totals are the sums, from zero and in
  the order of the records, of the counters \<open>up\<close>, \<open>down\<close>, \<open>totalUp\<close> and
  \<open>totalDown\<close> (each read as \<open>x || 0\<close>) of exactly the records that are online and
  have network statistics; the sums are those of the language, rounded at each step.
  When these counters are whole numbers whose sum is at most \<open>2^53\<close>, the total is
  their sum. A record that is online without statistics, or that is not online, can be
  removed without changing the totals, and the empty sequence gives four zeros.
\<close>

theorem network_totals:
  "getTotalNetworkStats nodes =
     \<lparr> totalUp_sum = jsSum (map (\<lambda>nw. orZero (up nw)) (onlineNetworks nodes)),
       totalDown_sum = jsSum (map (\<lambda>nw. orZero (down nw)) (onlineNetworks nodes)),
       totalUpTraffic = jsSum (map (\<lambda>nw. orZero (totalUp nw)) (onlineNetworks nodes)),
       totalDownTraffic = jsSum (map (\<lambda>nw. orZero (totalDown nw)) (onlineNetworks nodes)) \<rparr>
   \<and> (map up (onlineNetworks nodes) = map Num (map real us) \<and> sum_list us \<le> 2 ^ 53 \<longrightarrow>
        totalUp_sum (getTotalNetworkStats nodes) = Num (real (sum_list us)))
   \<and> (map down (onlineNetworks nodes) = map Num (map real ds) \<and> sum_list ds \<le> 2 ^ 53 \<longrightarrow>
        totalDown_sum (getTotalNetworkStats nodes) = Num (real (sum_list ds)))
   \<and> (map totalUp (onlineNetworks nodes) = map Num (map real tus) \<and> sum_list tus \<le> 2 ^ 53 \<longrightarrow>
        totalUpTraffic (getTotalNetworkStats nodes) = Num (real (sum_list tus)))
   \<and> (map totalDown (onlineNetworks nodes) = map Num (map real tds) \<and> sum_list tds \<le> 2 ^ 53 \<longrightarrow>
        totalDownTraffic (getTotalNetworkStats nodes) = Num (real (sum_list tds)))
   \<and> (status node = Some Online \<and> stats node = None \<longrightarrow>
        getTotalNetworkStats (xs @ node # ys) = getTotalNetworkStats (xs @ ys))
   \<and> (status node \<noteq> Some Online \<longrightarrow>
        getTotalNetworkStats (xs @ node # ys) = getTotalNetworkStats (xs @ ys))
   \<and> getTotalNetworkStats [] = zeroTotals"
proof -
  have g: "getTotalNetworkStats nodes =
     \<lparr> totalUp_sum = jsSum (map (\<lambda>nw. orZero (up nw)) (onlineNetworks nodes)),
       totalDown_sum = jsSum (map (\<lambda>nw. orZero (down nw)) (onlineNetworks nodes)),
       totalUpTraffic = jsSum (map (\<lambda>nw. orZero (totalUp nw)) (onlineNetworks nodes)),
       totalDownTraffic = jsSum (map (\<lambda>nw. orZero (totalDown nw)) (onlineNetworks nodes)) \<rparr>"
    unfolding getTotalNetworkStats_def jsSum_def
    by (subst foldl_addNode) (simp add: zeroTotals_def)
  have f: "jsSum (map (\<lambda>nw. orZero (h nw)) (onlineNetworks nodes)) = Num (real (sum_list zs))"
    if "map h (onlineNetworks nodes) = map Num (map real zs)" and "sum_list zs \<le> 2 ^ 53"
    for h zs
    by (simp only: map_orZero_Num [OF that(1)] jsSum_nat [OF that(2)])
  have s1: "status node = Some Online \<and> stats node = None \<longrightarrow>
      getTotalNetworkStats (xs @ node # ys) = getTotalNetworkStats (xs @ ys)"
    unfolding getTotalNetworkStats_def
    using foldl_addNode_skip [of node zeroTotals xs ys] by (simp add: addNode_no_stats)
  have s2: "status node \<noteq> Some Online \<longrightarrow>
      getTotalNetworkStats (xs @ node # ys) = getTotalNetworkStats (xs @ ys)"
    unfolding getTotalNetworkStats_def
    using foldl_addNode_skip [of node zeroTotals xs ys] by (simp add: addNode_not_online)
  have e: "getTotalNetworkStats [] = zeroTotals"
    by (simp add: getTotalNetworkStats_def)
  show ?thesis
    apply (intro conjI)
           apply (rule g)
          apply (simp add: g f)
         apply (simp add: g f)
        apply (simp add: g f)
       apply (simp add: g f)
      apply (rule s1)
     apply (rule s2)
    apply (rule e)
    done
qed

theorem network_totals_witness:
  "map up (onlineNetworks fleetABC) = map Num (map real [1, 10])
   \<and> map down (onlineNetworks fleetABC) = map Num (map real [2, 20])
   \<and> map totalUp (onlineNetworks fleetABC) = map Num (map real [3, 30])
   \<and> map totalDown (onlineNetworks fleetABC) = map Num (map real [4, 40])
   \<and> sum_list [1, 10] \<le> (2 ^ 53 :: nat) \<and> sum_list [2, 20] \<le> (2 ^ 53 :: nat)
   \<and> sum_list [3, 30] \<le> (2 ^ 53 :: nat) \<and> sum_list [4, 40] \<le> (2 ^ 53 :: nat)
   \<and> getTotalNetworkStats fleetABC =
       \<lparr> totalUp_sum = Num 11, totalDown_sum = Num 22,
         totalUpTraffic = Num 33, totalDownTraffic = Num 44 \<rparr>
   \<and> status (blankNode \<lparr> status := Some Online \<rparr>) = Some Online
   \<and> stats (blankNode \<lparr> status := Some Online \<rparr>) = None
   \<and> getTotalNetworkStats (fleetABC @ blankNode \<lparr> status := Some Online \<rparr> # []) =
       getTotalNetworkStats (fleetABC @ [])
   \<and> status statusless \<noteq> Some Online
   \<and> getTotalNetworkStats (fleetABC @ statusless # []) = getTotalNetworkStats (fleetABC @ [])"
proof -
  have n: "onlineNetworks fleetABC =
      [\<lparr> up = Num 1, down = Num 2, totalUp = Num 3, totalDown = Num 4 \<rparr>,
       \<lparr> up = Num 10, down = Num 20, totalUp = Num 30, totalDown = Num 40 \<rparr>]"
    by (simp add: fleetABC_def onlineNetworks_Cons onlineNetworks_Nil reporting_def
        blankNode_def blankStats_def)
  have m: "map up (onlineNetworks fleetABC) = map Num (map real [1, 10])"
    "map down (onlineNetworks fleetABC) = map Num (map real [2, 20])"
    "map totalUp (onlineNetworks fleetABC) = map Num (map real [3, 30])"
    "map totalDown (onlineNetworks fleetABC) = map Num (map real [4, 40])"
    by (simp_all add: n)
  have b: "sum_list [1, 10] \<le> (2 ^ 53 :: nat)" "sum_list [2, 20] \<le> (2 ^ 53 :: nat)"
    "sum_list [3, 30] \<le> (2 ^ 53 :: nat)" "sum_list [4, 40] \<le> (2 ^ 53 :: nat)"
    by simp_all
  note t = network_totals [of fleetABC "[1, 10]" "[2, 20]" "[3, 30]" "[4, 40]"]
  have t0: "getTotalNetworkStats fleetABC =
     \<lparr> totalUp_sum = jsSum (map (\<lambda>nw. orZero (up nw)) (onlineNetworks fleetABC)),
       totalDown_sum = jsSum (map (\<lambda>nw. orZero (down nw)) (onlineNetworks fleetABC)),
       totalUpTraffic = jsSum (map (\<lambda>nw. orZero (totalUp nw)) (onlineNetworks fleetABC)),
       totalDownTraffic = jsSum (map (\<lambda>nw. orZero (totalDown nw)) (onlineNetworks fleetABC)) \<rparr>"
    by (rule t [THEN conjunct1])
  have t1: "totalUp_sum (getTotalNetworkStats fleetABC) = Num (real (sum_list [1, 10]))"
    using t [THEN conjunct2, THEN conjunct1] m(1) b(1) by blast
  have t2: "totalDown_sum (getTotalNetworkStats fleetABC) = Num (real (sum_list [2, 20]))"
    using t [THEN conjunct2, THEN conjunct2, THEN conjunct1] m(2) b(2) by blast
  have t3: "totalUpTraffic (getTotalNetworkStats fleetABC) = Num (real (sum_list [3, 30]))"
    using t [THEN conjunct2, THEN conjunct2, THEN conjunct2, THEN conjunct1] m(3) b(3)
    by blast
  have t4: "totalDownTraffic (getTotalNetworkStats fleetABC) = Num (real (sum_list [4, 40]))"
    using t [THEN conjunct2, THEN conjunct2, THEN conjunct2, THEN conjunct2, THEN conjunct1]
      m(4) b(4)
    by blast
  have tot: "getTotalNetworkStats fleetABC =
       \<lparr> totalUp_sum = Num 11, totalDown_sum = Num 22,
         totalUpTraffic = Num 33, totalDownTraffic = Num 44 \<rparr>"
    using t1 t2 t3 t4 by (subst t0) (simp add: t0 [symmetric])
  have a: "status (blankNode \<lparr> status := Some Online \<rparr>) = Some Online"
    "stats (blankNode \<lparr> status := Some Online \<rparr>) = None"
    by (simp_all add: blankNode_def)
  have c: "status statusless \<noteq> Some Online"
    by (simp add: statusless_def)
  have k1: "getTotalNetworkStats (fleetABC @ blankNode \<lparr> status := Some Online \<rparr> # []) =
       getTotalNetworkStats (fleetABC @ [])"
    using network_totals [of fleetABC _ _ _ _ "blankNode \<lparr> status := Some Online \<rparr>" fleetABC "[]"]
      a by blast
  have k2: "getTotalNetworkStats (fleetABC @ statusless # []) =
       getTotalNetworkStats (fleetABC @ [])"
    using network_totals [of fleetABC _ _ _ _ statusless fleetABC "[]"] c by blast
  show ?thesis
    by (intro conjI) (fact m b tot a c k1 k2)+
qed

section \<open>Theme restoration: validation\<close>

lemma themeIds_nonempty: "t \<in> set themeIds \<Longrightarrow> t \<noteq> []"
  by (auto simp: themeIds_def ascii_def)

text \<open>
  Claim C8. There are eight theme identifiers, all different, and the default
  \<open>clean\<close> is one of them. When the provider is mounted, a stored value that is one of
  the eight becomes the theme; a stored value that is not one of them, or an absent one,
  is ignored and the theme stays the default.
\<close>

theorem theme_restoration:
  "length themeIds = 8 \<and> distinct themeIds \<and> defaultTheme = ascii ''clean''
   \<and> defaultTheme \<in> set themeIds
   \<and> (ls storageKey = Some t \<and> t \<in> set themeIds \<longrightarrow>
        restoreTheme ls defaultTheme = t \<and> fst (mountThemeProvider ls) = t)
   \<and> (ls storageKey = Some t \<and> t \<notin> set themeIds \<longrightarrow>
        restoreTheme ls defaultTheme = defaultTheme
        \<and> fst (mountThemeProvider ls) = defaultTheme)
   \<and> (ls storageKey = None \<longrightarrow>
        restoreTheme ls defaultTheme = defaultTheme
        \<and> fst (mountThemeProvider ls) = defaultTheme)"
proof -
  have a: "length themeIds = 8" by (simp add: themeIds_def)
  have b: "distinct themeIds" by (simp add: themeIds_def ascii_def)
  have c: "defaultTheme \<in> set themeIds" by (simp add: themeIds_def defaultTheme_def)
  have m: "fst (mountThemeProvider ls) = restoreTheme ls defaultTheme"
    by (simp add: mountThemeProvider_def Let_def)
  have r1: "ls storageKey = Some t \<Longrightarrow> t \<in> set themeIds \<Longrightarrow> restoreTheme ls defaultTheme = t"
    by (simp add: restoreTheme_def themeIds_nonempty)
  have r2: "ls storageKey = Some t \<Longrightarrow> t \<notin> set themeIds \<Longrightarrow>
      restoreTheme ls defaultTheme = defaultTheme"
    by (simp add: restoreTheme_def)
  have r3: "ls storageKey = None \<Longrightarrow> restoreTheme ls defaultTheme = defaultTheme"
    by (simp add: restoreTheme_def)
  show ?thesis
    using a b c r1 r2 r3 by (simp add: m defaultTheme_def)
qed

theorem theme_restoration_witness:
  "(Map.empty(storageKey \<mapsto> ascii ''night'')) storageKey = Some (ascii ''night'')
   \<and> ascii ''night'' \<in> set themeIds
   \<and> fst (mountThemeProvider (Map.empty(storageKey \<mapsto> ascii ''night''))) = ascii ''night''
   \<and> (Map.empty(storageKey \<mapsto> ascii ''midnight'')) storageKey = Some (ascii ''midnight'')
   \<and> ascii ''midnight'' \<notin> set themeIds
   \<and> fst (mountThemeProvider (Map.empty(storageKey \<mapsto> ascii ''midnight''))) = ascii ''clean''
   \<and> (Map.empty :: storage) storageKey = None
   \<and> fst (mountThemeProvider Map.empty) = ascii ''clean''"
proof -
  have a: "ascii ''night'' \<in> set themeIds"
    by (simp add: themeIds_def)
  have b: "ascii ''midnight'' \<notin> set themeIds"
    by (simp add: themeIds_def ascii_def)
  from theme_restoration [of "Map.empty(storageKey \<mapsto> ascii ''night'')" "ascii ''night''"]
    theme_restoration [of "Map.empty(storageKey \<mapsto> ascii ''midnight'')" "ascii ''midnight''"]
    theme_restoration [of Map.empty] a b
  show ?thesis
    by simp
qed

section \<open>Absent status\<close>

lemma indicator_cong: "isOnline a = isOnline b \<Longrightarrow> indicator a = indicator b"
  by (simp add: indicator_def)

text \<open>
  Claim C10. Only a status equal to \<open>online\<close> counts as online. A record without a
  status field is not online: the card draws for it what it draws for the same record
  with status \<open>offline\<close>, with the offline text and classes, and the fleet totals leave
  it out, as they do for the same record with status \<open>offline\<close>.
\<close>

theorem absent_status_is_offline:
  "isOnline node = (status node = Some Online)
   \<and> (status node = None \<longrightarrow>
        \<not> isOnline node
        \<and> indicator node = indicator (node \<lparr> status := Some Offline \<rparr>)
        \<and> badgeText (indicator node) = [0x79BB, 0x7EBF]
        \<and> borderClass (indicator node) = ascii ''border-l-red-500''
        \<and> iconClass (indicator node) = ascii ''text-red-500''
        \<and> \<not> pulse (indicator node)
        \<and> addNode acc node = acc
        \<and> addNode acc (node \<lparr> status := Some Offline \<rparr>) = acc
        \<and> getTotalNetworkStats (xs @ node # ys) = getTotalNetworkStats (xs @ ys)
        \<and> getTotalNetworkStats (xs @ node # ys) =
            getTotalNetworkStats (xs @ node \<lparr> status := Some Offline \<rparr> # ys))"
proof -
  have on: "isOnline node = (status node = Some Online)"
    by (simp add: isOnline_def)
  have main: "\<not> isOnline node
        \<and> indicator node = indicator (node \<lparr> status := Some Offline \<rparr>)
        \<and> badgeText (indicator node) = [0x79BB, 0x7EBF]
        \<and> borderClass (indicator node) = ascii ''border-l-red-500''
        \<and> iconClass (indicator node) = ascii ''text-red-500''
        \<and> \<not> pulse (indicator node)
        \<and> addNode acc node = acc
        \<and> addNode acc (node \<lparr> status := Some Offline \<rparr>) = acc
        \<and> getTotalNetworkStats (xs @ node # ys) = getTotalNetworkStats (xs @ ys)
        \<and> getTotalNetworkStats (xs @ node # ys) =
            getTotalNetworkStats (xs @ node \<lparr> status := Some Offline \<rparr> # ys)"
    if none: "status node = None"
  proof -
    have off1: "\<not> isOnline node"
      using none by (simp add: isOnline_def)
    have off2: "\<not> isOnline (node \<lparr> status := Some Offline \<rparr>)"
      by (simp add: isOnline_def)
    have ind: "indicator node = indicator (node \<lparr> status := Some Offline \<rparr>)"
      by (rule indicator_cong) (simp only: off1 off2)
    have p1: "badgeText (indicator node) = [0x79BB, 0x7EBF]"
      by (simp add: indicator_def off1)
    have p2: "borderClass (indicator node) = ascii ''border-l-red-500''"
      by (simp add: indicator_def off1)
    have p3: "iconClass (indicator node) = ascii ''text-red-500''"
      by (simp add: indicator_def off1)
    have p4: "\<not> pulse (indicator node)"
      by (simp add: indicator_def off1)
    have a1: "addNode a node = a" for a
      by (rule addNode_not_online) (simp add: none)
    have a2: "addNode a (node \<lparr> status := Some Offline \<rparr>) = a" for a
      by (rule addNode_not_online) simp
    have t1: "getTotalNetworkStats (xs @ node # ys) = getTotalNetworkStats (xs @ ys)"
      unfolding getTotalNetworkStats_def by (rule foldl_addNode_skip) (rule a1)
    have t2: "getTotalNetworkStats (xs @ node \<lparr> status := Some Offline \<rparr> # ys) =
        getTotalNetworkStats (xs @ ys)"
      unfolding getTotalNetworkStats_def by (rule foldl_addNode_skip) (rule a2)
    have t3: "getTotalNetworkStats (xs @ node # ys) =
        getTotalNetworkStats (xs @ node \<lparr> status := Some Offline \<rparr> # ys)"
      by (simp only: t1 t2)
    show ?thesis
      by (intro conjI) (fact off1 ind p1 p2 p3 p4 a1 a2 t1 t3)+
  qed
  show ?thesis
    by (rule conjI [OF on impI [OF main]])
qed

theorem absent_status_is_offline_witness:
  "status statusless = None
   \<and> \<not> isOnline statusless
   \<and> badgeText (indicator statusless) = [0x79BB, 0x7EBF]
   \<and> getTotalNetworkStats (fleetABC @ statusless # fleetABC) =
       getTotalNetworkStats (fleetABC @ fleetABC)
   \<and> getTotalNetworkStats (fleetABC @ statusless # fleetABC) =
       getTotalNetworkStats (fleetABC @ statusless \<lparr> status := Some Offline \<rparr> # fleetABC)"
proof -
  have h: "status statusless = None"
    by (simp add: statusless_def)
  note t = absent_status_is_offline [of statusless zeroTotals fleetABC fleetABC,
      THEN conjunct2, THEN mp, OF h]
  show ?thesis
    by (intro conjI) (rule h, (rule t [THEN conjunct1] t [THEN conjunct2, THEN conjunct2, THEN conjunct1] t [THEN conjunct2, THEN conjunct2, THEN conjunct2, THEN conjunct2, THEN conjunct2,
        THEN conjunct2, THEN conjunct2, THEN conjunct2, THEN conjunct1] t [THEN conjunct2, THEN conjunct2, THEN conjunct2, THEN conjunct2, THEN conjunct2,
        THEN conjunct2, THEN conjunct2, THEN conjunct2, THEN conjunct2])+)
qed

section \<open>Uptime: days and hours\<close>









section \<open>Region label: what is rewritten and what is kept\<close>

lemma matchesAt_length:
  "matchesAt canon pat s \<Longrightarrow> length pat \<le> length s"
proof -
  assume "matchesAt canon pat s"
  then have "length (map canon (take (length pat) s)) = length (map canon pat)"
    by (simp only: matchesAt_def)
  then show ?thesis by simp
qed

lemma replaceAll_skip:
  assumes "\<forall>i<length a. \<not> matchesAt canon pat (drop i a @ r)"
  shows "replaceAll canon pat rep (a @ r) = a @ replaceAll canon pat rep r"
  using assms
proof (induction a)
  case Nil
  show ?case by simp
next
  case (Cons c cs)
  from Cons.prems have "\<not> matchesAt canon pat (drop 0 (c # cs) @ r)"
    by blast
  then have no: "\<not> matchesAt canon pat (c # cs @ r)" by simp
  have "\<forall>i<length cs. \<not> matchesAt canon pat (drop i cs @ r)"
  proof (intro allI impI)
    fix i assume "i < length cs"
    then have "Suc i < length (c # cs)" by simp
    with Cons.prems have "\<not> matchesAt canon pat (drop (Suc i) (c # cs) @ r)" by blast
    then show "\<not> matchesAt canon pat (drop i cs @ r)" by simp
  qed
  then have "replaceAll canon pat rep (cs @ r) = cs @ replaceAll canon pat rep r"
    by (rule Cons.IH)
  with no show ?case
    by (simp add: replaceAll.simps(2))
qed

lemma replaceAll_hit:
  assumes "pat \<noteq> []" and "length m = length pat" and "map canon m = map canon pat"
  shows "replaceAll canon pat rep (m @ r) = rep @ replaceAll canon pat rep r"
proof -
  from assms obtain c cs where m: "m = c # cs" by (cases m) auto
  have len: "length cs = length pat - 1" using assms(2) m by simp
  have "matchesAt canon pat (m @ r)"
    using assms by (simp add: matchesAt_def)
  moreover have "drop (length pat - 1) (cs @ r) = r"
    using len by simp
  ultimately show ?thesis
    by (simp add: m replaceAll.simps(2))
qed

lemma replaceAll_clean:
  assumes "\<forall>i. \<not> matchesAt canon pat (drop i s)"
  shows "replaceAll canon pat rep s = s"
proof -
  have "\<forall>i<length s. \<not> matchesAt canon pat (drop i s @ [])"
    using assms by simp
  then have "replaceAll canon pat rep (s @ []) = s @ replaceAll canon pat rep []"
    by (rule replaceAll_skip)
  then show ?thesis by simp
qed

lemma take_take_append: "take (length x) (take n (x @ r)) = take n x"
  by (cases "n \<le> length x") (simp_all add: min_def)

lemma no_straddle:
  assumes clean: "\<forall>i. \<not> matchesAt canon pat (drop i a)"
    and bd: "\<forall>j. 0 < j \<and> j < length pat \<longrightarrow>
               take (length (map canon x)) (drop j (map canon pat)) \<noteq>
               take (length pat - j) (map canon x)"
  shows "\<forall>i<length a. \<not> matchesAt canon pat (drop i a @ x @ r)"
proof (intro allI impI notI)
  fix i assume i: "i < length a" and m: "matchesAt canon pat (drop i a @ x @ r)"
  define s where "s = drop i a"
  define j where "j = length s"
  have jpos: "0 < j" using i by (simp add: j_def s_def)
  from m have eq: "map canon (take (length pat) (s @ x @ r)) = map canon pat"
    by (simp add: matchesAt_def s_def)
  show False
  proof (cases "length pat \<le> j")
    case True
    then have tk: "take (length pat) (s @ x @ r) = take (length pat) s"
      by (simp add: j_def)
    from eq have "map canon (take (length pat) s) = map canon pat"
      by (simp only: tk)
    then have "matchesAt canon pat (drop i a)"
      unfolding matchesAt_def s_def .
    with clean show False by blast
  next
    case False
    then have jlt: "j < length pat" by simp
    have "drop j (map canon (take (length pat) (s @ x @ r))) = drop j (map canon pat)"
      by (simp only: eq)
    then have t: "map canon (take (length pat - j) (x @ r)) = drop j (map canon pat)"
      using jlt by (simp add: j_def drop_map)
    then have "take (length (map canon x)) (map canon (take (length pat - j) (x @ r))) =
        take (length (map canon x)) (drop j (map canon pat))"
      by simp
    moreover have "take (length (map canon x)) (map canon (take (length pat - j) (x @ r))) =
        take (length pat - j) (map canon x)"
      by (simp only: length_map take_map take_take_append)
    ultimately have "take (length (map canon x)) (drop j (map canon pat)) =
        take (length pat - j) (map canon x)"
      by simp
    with bd jpos jlt show False by blast
  qed
qed

lemma no_start_inside:
  assumes "pat \<noteq> []" and "canon (hd pat) \<notin> set (map canon x)"
  shows "\<forall>i<length x. \<not> matchesAt canon pat (drop i x @ r)"
proof (intro allI impI notI)
  fix i assume i: "i < length x" and m: "matchesAt canon pat (drop i x @ r)"
  from assms(1) obtain p ps where p: "pat = p # ps" by (cases pat) auto
  from i obtain c cs where d: "drop i x = c # cs"
    by (cases "drop i x") auto
  from m have "canon c = canon p"
    by (simp add: matchesAt_def p d)
  moreover have "c \<in> set x"
    using d by (metis in_set_dropD list.set_intros(1))
  ultimately show False
    using assms(2) by (simp add: p) (metis imageI)
qed

lemma includesStr_iff: "includesStr s pat \<longleftrightarrow> (\<exists>i. startsWith (drop i s) pat)"
proof (induction s)
  case Nil
  show ?case by (auto simp: startsWith_def)
next
  case (Cons c cs)
  show ?case
  proof
    assume "includesStr (c # cs) pat"
    then consider "startsWith (c # cs) pat" | "includesStr cs pat" by auto
    then show "\<exists>i. startsWith (drop i (c # cs)) pat"
    proof cases
      case 1
      then have "startsWith (drop 0 (c # cs)) pat" by simp
      then show ?thesis by blast
    next
      case 2
      with Cons.IH obtain i where "startsWith (drop i cs) pat" by blast
      then have "startsWith (drop (Suc i) (c # cs)) pat" by simp
      then show ?thesis by blast
    qed
  next
    assume "\<exists>i. startsWith (drop i (c # cs)) pat"
    then obtain i where i: "startsWith (drop i (c # cs)) pat" by blast
    show "includesStr (c # cs) pat"
    proof (cases i)
      case 0
      with i show ?thesis by simp
    next
      case (Suc k)
      with i have "startsWith (drop k cs) pat" by simp
      with Cons.IH show ?thesis by auto
    qed
  qed
qed

lemma no_straddle_disjoint:
  assumes "x \<noteq> []" and "set (map canon pat) \<inter> set (map canon x) = {}"
  shows "\<forall>j. 0 < j \<and> j < length pat \<longrightarrow>
           take (length (map canon x)) (drop j (map canon pat)) \<noteq>
           take (length pat - j) (map canon x)"
proof (intro allI impI notI)
  fix j
  assume j: "0 < j \<and> j < length pat"
    and eq: "take (length (map canon x)) (drop j (map canon pat)) =
             take (length pat - j) (map canon x)"
  from assms(1) obtain c cs where x: "x = c # cs" by (cases x) auto
  from j obtain q qs where d: "drop j (map canon pat) = q # qs"
    by (cases "drop j (map canon pat)") auto
  from j obtain k where k: "length pat - j = Suc k"
    by (cases "length pat - j") auto
  from eq have "q = canon c"
    by (simp add: x d k)
  moreover have "q \<in> set (map canon pat)"
    using d by (metis in_set_dropD list.set_intros(1))
  moreover have "canon c \<in> set (map canon x)"
    by (simp add: x)
  ultimately show False
    using assms(2) by blast
qed

lemma replaceAll_skip_other:
  assumes clean: "\<forall>i. \<not> matchesAt canon pat (drop i a)"
    and "pat \<noteq> []" and "x \<noteq> []"
    and disj: "set (map canon pat) \<inter> set (map canon x) = {}"
  shows "replaceAll canon pat rep (a @ x @ r) = a @ x @ replaceAll canon pat rep r"
proof -
  have "\<forall>i<length a. \<not> matchesAt canon pat (drop i a @ x @ r)"
    using clean no_straddle_disjoint [OF assms(3) disj] by (rule no_straddle)
  then have 1: "replaceAll canon pat rep (a @ x @ r) = a @ replaceAll canon pat rep (x @ r)"
    by (rule replaceAll_skip)
  have "canon (hd pat) \<in> set (map canon pat)"
    using assms(2) by (cases pat) simp_all
  with disj have "canon (hd pat) \<notin> set (map canon x)"
    by blast
  with assms(2) have "\<forall>i<length x. \<not> matchesAt canon pat (drop i x @ r)"
    by (rule no_start_inside)
  then have 2: "replaceAll canon pat rep (x @ r) = x @ replaceAll canon pat rep r"
    by (rule replaceAll_skip)
  show ?thesis
    by (simp only: 1 2)
qed

lemma replaceAll_hit_after:
  assumes clean: "\<forall>i. \<not> matchesAt canon pat (drop i a)"
    and "pat \<noteq> []" and len: "length m = length pat" and eq: "map canon m = map canon pat"
    and border: "\<forall>j. 0 < j \<and> j < length pat \<longrightarrow>
                   drop j (map canon pat) \<noteq> take (length pat - j) (map canon pat)"
  shows "replaceAll canon pat rep (a @ m @ r) = a @ rep @ replaceAll canon pat rep r"
proof -
  have "\<forall>j. 0 < j \<and> j < length pat \<longrightarrow>
           take (length (map canon m)) (drop j (map canon pat)) \<noteq>
           take (length pat - j) (map canon m)"
    using border by (simp add: eq)
  with clean have "\<forall>i<length a. \<not> matchesAt canon pat (drop i a @ m @ r)"
    by (rule no_straddle)
  then have "replaceAll canon pat rep (a @ m @ r) = a @ replaceAll canon pat rep (m @ r)"
    by (rule replaceAll_skip)
  also have "replaceAll canon pat rep (m @ r) = rep @ replaceAll canon pat rep r"
    using assms(2) len eq by (rule replaceAll_hit)
  finally show ?thesis .
qed

lemma lower_canon_char:
  assumes "97 \<le> l" and "l \<le> 122"
  shows "((if 65 \<le> c \<and> c \<le> 90 then c + 32 else c) = l) = (canonicalize c = l - 32)"
  using assms by (auto simp: canonicalize_def)

lemma lower_canon_list:
  assumes "\<forall>l\<in>set ls. 97 \<le> l \<and> l \<le> 122"
  shows "(toLowerCase xs = ls) = (map canonicalize xs = map (\<lambda>l. l - 32) ls)"
  using assms
proof (induction xs arbitrary: ls)
  case Nil
  show ?case by (auto simp: toLowerCase_def)
next
  case (Cons c cs)
  show ?case
  proof (cases ls)
    case Nil
    then show ?thesis by (simp add: toLowerCase_def)
  next
    case (Cons l ls')
    with Cons.prems have l: "97 \<le> l" "l \<le> 122" and r: "\<forall>l\<in>set ls'. 97 \<le> l \<and> l \<le> 122"
      by simp_all
    from Cons.IH [OF r] have ih: "(map (\<lambda>c. if 65 \<le> c \<and> c \<le> 90 then c + 32 else c) cs = ls') =
        (map canonicalize cs = map (\<lambda>l. l - 32) ls')"
      by (simp add: toLowerCase_def)
    show ?thesis
      by (simp add: Cons toLowerCase_def lower_canon_char [OF l] ih)
  qed
qed

lemma canon_taiwan: "map (\<lambda>l. l - 32) (ascii ''taiwan'') = map canonicalize (ascii ''taiwan'')"
  by (simp add: ascii_def canonicalize_def)

lemma lower_taiwan_iff:
  "(toLowerCase xs = ascii ''taiwan'') = (map canonicalize xs = map canonicalize (ascii ''taiwan''))"
proof -
  have "\<forall>l\<in>set (ascii ''taiwan''). 97 \<le> l \<and> l \<le> 122"
    by (simp add: ascii_def)
  then show ?thesis
    by (simp only: lower_canon_list canon_taiwan)
qed

lemma includes_lower_iff:
  "includesStr (toLowerCase s) (ascii ''taiwan'') \<longleftrightarrow>
     (\<exists>i. matchesAt canonicalize (ascii ''taiwan'') (drop i s))"
proof -
  have "startsWith (drop i (toLowerCase s)) (ascii ''taiwan'') =
        matchesAt canonicalize (ascii ''taiwan'') (drop i s)" for i
  proof -
    have "drop i (toLowerCase s) = toLowerCase (drop i s)"
      by (simp add: toLowerCase_def drop_map)
    moreover have "take n (toLowerCase t) = toLowerCase (take n t)" for n t
      by (simp add: toLowerCase_def take_map)
    ultimately show ?thesis
      by (simp only: startsWith_def matchesAt_def lower_taiwan_iff)
  qed
  then show ?thesis
    by (simp only: includesStr_iff)
qed

lemma includes_id_iff:
  "includesStr s pat \<longleftrightarrow> (\<exists>i. matchesAt id pat (drop i s))"
  by (simp add: includesStr_iff startsWith_def matchesAt_def)

lemma all_between_4: "(\<forall>j. 0 < j \<and> j < (4::nat) \<longrightarrow> Q j) = (Q 1 \<and> Q 2 \<and> Q 3)"
proof -
  have "(0 < j \<and> j < 4) = (j = 1 \<or> j = 2 \<or> j = 3)" for j :: nat
    by arith
  then show ?thesis by (simp only:) blast
qed

lemma all_between_6:
  "(\<forall>j. 0 < j \<and> j < (6::nat) \<longrightarrow> Q j) = (Q 1 \<and> Q 2 \<and> Q 3 \<and> Q 4 \<and> Q 5)"
proof -
  have "(0 < j \<and> j < 6) = (j = 1 \<or> j = 2 \<or> j = 3 \<or> j = 4 \<or> j = 5)" for j :: nat
    by arith
  then show ?thesis by (simp only:) blast
qed

lemma all_between_2: "(\<forall>j. 0 < j \<and> j < (2::nat) \<longrightarrow> Q j) = Q 1"
proof -
  have "(0 < j \<and> j < 2) = (j = 1)" for j :: nat
    by arith
  then show ?thesis by (simp only:) blast
qed

lemma border_flag:
  "\<forall>j. 0 < j \<and> j < length flagTW \<longrightarrow>
     drop j (map id flagTW) \<noteq> take (length flagTW - j) (map id flagTW)"
proof -
  have len: "length flagTW = 4" by (simp add: flagTW_def)
  show ?thesis
    unfolding len all_between_4 by (simp add: flagTW_def)
qed

lemma border_taiwan:
  "\<forall>j. 0 < j \<and> j < length (ascii ''taiwan'') \<longrightarrow>
     drop j (map canonicalize (ascii ''taiwan'')) \<noteq>
     take (length (ascii ''taiwan'') - j) (map canonicalize (ascii ''taiwan''))"
proof -
  have len: "length (ascii ''taiwan'') = 6" by (simp add: ascii_def)
  show ?thesis
    unfolding len all_between_6 by (simp add: ascii_def canonicalize_def)
qed

lemma border_zh:
  "\<forall>j. 0 < j \<and> j < length nameZh \<longrightarrow>
     drop j (map id nameZh) \<noteq> take (length nameZh - j) (map id nameZh)"
proof -
  have len: "length nameZh = 2" by (simp add: nameZh_def)
  show ?thesis
    unfolding len all_between_2 by (simp add: nameZh_def)
qed

lemma canonicalize_small: "canonicalize c \<le> 90 \<Longrightarrow> c \<le> 122"
  by (auto simp: canonicalize_def split: if_splits)

lemma variant_small:
  assumes "map canonicalize m = map canonicalize (ascii ''taiwan'')"
  shows "\<forall>c\<in>set m. c \<le> 122"
proof
  fix c assume "c \<in> set m"
  then have "canonicalize c \<in> set (map canonicalize m)" by simp
  then have "canonicalize c \<in> set (map canonicalize (ascii ''taiwan''))"
    by (simp only: assms)
  then have "canonicalize c \<le> 90"
    by (auto simp: ascii_def canonicalize_def)
  then show "c \<le> 122" by (rule canonicalize_small)
qed

lemma variant_length:
  assumes "map canonicalize m = map canonicalize (ascii ''taiwan'')"
  shows "length m = length (ascii ''taiwan'')"
proof -
  have "length (map canonicalize m) = length (map canonicalize (ascii ''taiwan''))"
    by (simp only: assms)
  then show ?thesis by simp
qed

lemma disjoint_flag_variant:
  assumes "map canonicalize m = map canonicalize (ascii ''taiwan'')"
  shows "set (map id flagTW) \<inter> set (map id m) = {}"
  using variant_small [OF assms] by (auto simp: flagTW_def)

lemma formatRegion_chain:
  "formatRegion r =
     replaceAll id nameZh (ascii ''Taiwan'')
       (replaceAll canonicalize (ascii ''taiwan'') (ascii ''Taiwan'')
          (replaceAll id flagTW flagUN r))"
proof (cases "includesStr r flagTW \<or> includesStr (toLowerCase r) (ascii ''taiwan'')
    \<or> includesStr r nameZh")
  case True
  then show ?thesis by (simp add: formatRegion_def)
next
  case False
  then have "\<not> includesStr r flagTW" "\<not> includesStr (toLowerCase r) (ascii ''taiwan'')"
    "\<not> includesStr r nameZh"
    by simp_all
  then have c: "\<forall>i. \<not> matchesAt id flagTW (drop i r)"
    "\<forall>i. \<not> matchesAt canonicalize (ascii ''taiwan'') (drop i r)"
    "\<forall>i. \<not> matchesAt id nameZh (drop i r)"
    by (simp_all only: includes_id_iff [of r] includes_lower_iff not_ex simp_thms)
  from False have "formatRegion r = r" by (simp add: formatRegion_def)
  then show ?thesis
    by (simp only: replaceAll_clean [OF c(1)] replaceAll_clean [OF c(2)]
        replaceAll_clean [OF c(3)])
qed

lemma matchesAt_prefix:
  assumes "matchesAt canon pat s"
  shows "matchesAt canon pat (s @ r)"
proof -
  from assms have "length pat \<le> length s" by (rule matchesAt_length)
  then have "take (length pat) (s @ r) = take (length pat) s" by simp
  with assms show ?thesis by (simp add: matchesAt_def)
qed

lemma matchesAt_split:
  assumes "matchesAt canon pat s"
  obtains m b where "s = m @ b" and "length m = length pat" and "map canon m = map canon pat"
proof -
  from assms have len: "length pat \<le> length s" by (rule matchesAt_length)
  have "s = take (length pat) s @ drop (length pat) s" by simp
  moreover have "length (take (length pat) s) = length pat" using len by simp
  moreover have "map canon (take (length pat) s) = map canon pat"
    using assms by (simp add: matchesAt_def)
  ultimately show ?thesis by (rule that)
qed

lemma clean_Cons:
  assumes "\<not> matchesAt canon pat (c # a @ r)" and "\<forall>i. \<not> matchesAt canon pat (drop i a)"
  shows "\<forall>i. \<not> matchesAt canon pat (drop i (c # a))"
proof
  fix i
  show "\<not> matchesAt canon pat (drop i (c # a))"
  proof (cases i)
    case 0
    have "\<not> matchesAt canon pat (c # a)"
    proof
      assume "matchesAt canon pat (c # a)"
      then have "matchesAt canon pat ((c # a) @ r)" by (rule matchesAt_prefix)
      with assms(1) show False by simp
    qed
    with 0 show ?thesis by simp
  next
    case (Suc k)
    with assms(2) show ?thesis by simp
  qed
qed

text \<open>
  Every string is either free of markers or a marker-free prefix, a first marker and a
  rest.
\<close>

lemma region_decompose:
  "(\<not> includesStr r flagTW \<and> \<not> includesStr (toLowerCase r) (ascii ''taiwan'')
      \<and> \<not> includesStr r nameZh)
   \<or> (\<exists>a m b. r = a @ m @ b
        \<and> \<not> includesStr a flagTW \<and> \<not> includesStr (toLowerCase a) (ascii ''taiwan'')
        \<and> \<not> includesStr a nameZh
        \<and> (m = flagTW \<or> toLowerCase m = ascii ''taiwan'' \<or> m = nameZh))"
proof (induction r)
  case Nil
  have "\<not> includesStr [] flagTW" "\<not> includesStr (toLowerCase []) (ascii ''taiwan'')"
    "\<not> includesStr [] nameZh"
    by (simp_all add: flagTW_def nameZh_def ascii_def toLowerCase_def)
  then show ?case by blast
next
  case (Cons c cs)
  let ?clean = "\<lambda>a. \<not> includesStr a flagTW \<and> \<not> includesStr (toLowerCase a) (ascii ''taiwan'')
        \<and> \<not> includesStr a nameZh"
  let ?marker = "\<lambda>m. m = flagTW \<or> toLowerCase m = ascii ''taiwan'' \<or> m = nameZh"
  have e: "?clean []"
    by (simp add: flagTW_def nameZh_def ascii_def toLowerCase_def)
  show ?case
  proof (cases "matchesAt id flagTW (c # cs) \<or> matchesAt canonicalize (ascii ''taiwan'') (c # cs)
      \<or> matchesAt id nameZh (c # cs)")
    case True
    then consider "matchesAt id flagTW (c # cs)"
      | "matchesAt canonicalize (ascii ''taiwan'') (c # cs)"
      | "matchesAt id nameZh (c # cs)"
      by blast
    then have "\<exists>m b. c # cs = [] @ m @ b \<and> ?marker m"
    proof cases
      case 1
      then obtain m b where "c # cs = m @ b" "map id m = map id flagTW"
        by (rule matchesAt_split)
      then have "c # cs = [] @ m @ b \<and> m = flagTW" by simp
      then show ?thesis by blast
    next
      case 2
      then obtain m b where "c # cs = m @ b"
        "map canonicalize m = map canonicalize (ascii ''taiwan'')"
        by (rule matchesAt_split)
      then have "c # cs = [] @ m @ b \<and> toLowerCase m = ascii ''taiwan''"
        by (simp add: lower_taiwan_iff)
      then show ?thesis by blast
    next
      case 3
      then obtain m b where "c # cs = m @ b" "map id m = map id nameZh"
        by (rule matchesAt_split)
      then have "c # cs = [] @ m @ b \<and> m = nameZh" by simp
      then show ?thesis by blast
    qed
    with e show ?thesis by blast
  next
    case False
    then have n0: "\<not> matchesAt id flagTW (c # cs)"
      "\<not> matchesAt canonicalize (ascii ''taiwan'') (c # cs)"
      "\<not> matchesAt id nameZh (c # cs)"
      by simp_all
    from Cons.IH consider (free) "?clean cs"
      | (split) a m b where "cs = a @ m @ b" "?clean a" "?marker m"
      by blast
    then show ?thesis
    proof cases
      case free
      then have cl: "\<not> includesStr cs flagTW"
        "\<not> includesStr (toLowerCase cs) (ascii ''taiwan'')" "\<not> includesStr cs nameZh"
        by simp_all
      from cl have c: "\<forall>i. \<not> matchesAt id flagTW (drop i cs)"
        "\<forall>i. \<not> matchesAt canonicalize (ascii ''taiwan'') (drop i cs)"
        "\<forall>i. \<not> matchesAt id nameZh (drop i cs)"
        by (simp_all only: includes_id_iff [of cs] includes_lower_iff not_ex simp_thms)
      have "\<forall>i. \<not> matchesAt id flagTW (drop i (c # cs))"
        using n0(1) c(1) clean_Cons [of id flagTW c cs "[]"] by simp
      moreover have "\<forall>i. \<not> matchesAt canonicalize (ascii ''taiwan'') (drop i (c # cs))"
        using n0(2) c(2) clean_Cons [of canonicalize "ascii ''taiwan''" c cs "[]"] by simp
      moreover have "\<forall>i. \<not> matchesAt id nameZh (drop i (c # cs))"
        using n0(3) c(3) clean_Cons [of id nameZh c cs "[]"] by simp
      ultimately have "?clean (c # cs)"
        by (simp only: includes_id_iff [of "c # cs"] includes_lower_iff not_ex simp_thms)
      then show ?thesis by blast
    next
      case split
      note d = split(1) and mk = split(3)
      from split(2) have cl: "\<not> includesStr a flagTW"
        "\<not> includesStr (toLowerCase a) (ascii ''taiwan'')" "\<not> includesStr a nameZh"
        by simp_all
      from cl have c: "\<forall>i. \<not> matchesAt id flagTW (drop i a)"
        "\<forall>i. \<not> matchesAt canonicalize (ascii ''taiwan'') (drop i a)"
        "\<forall>i. \<not> matchesAt id nameZh (drop i a)"
        by (simp_all only: includes_id_iff [of a] includes_lower_iff not_ex simp_thms)
      have "\<forall>i. \<not> matchesAt id flagTW (drop i (c # a))"
        using n0(1) c(1) clean_Cons [of id flagTW c a "m @ b"] by (simp add: d)
      moreover have "\<forall>i. \<not> matchesAt canonicalize (ascii ''taiwan'') (drop i (c # a))"
        using n0(2) c(2) clean_Cons [of canonicalize "ascii ''taiwan''" c a "m @ b"]
        by (simp add: d)
      moreover have "\<forall>i. \<not> matchesAt id nameZh (drop i (c # a))"
        using n0(3) c(3) clean_Cons [of id nameZh c a "m @ b"] by (simp add: d)
      ultimately have "?clean (c # a)"
        by (simp only: includes_id_iff [of "c # a"] includes_lower_iff not_ex simp_thms)
      moreover have "c # cs = (c # a) @ m @ b" by (simp add: d)
      ultimately show ?thesis using mk by blast
    qed
  qed
qed

text \<open>
  Claim C6. A region string that includes neither the flag, nor the name in any mix of
  upper and lower case, nor the localized name, is returned as it is. In any string, up to
  and including its first marker, the marker alone is rewritten and the code units before
  it are kept: after a prefix \<open>a\<close> without markers, the flag becomes the flag of the
  United Nations, a spelling \<open>m\<close> of the name becomes \<open>Taiwan\<close>, and the localized
  name becomes \<open>Taiwan\<close>; the rest \<open>b\<close> of the string is formatted in the same way.
  Every string with a marker has this form (lemma \<open>region_decompose\<close>), so the
  equations determine the result on every string. The function takes the string
  and returns a string: the line of the card is \<open>formatRegion\<close> of the region field,
  and the record is not among the results.
\<close>

theorem region_rewrite:
  "(\<not> includesStr r flagTW \<and> \<not> includesStr (toLowerCase r) (ascii ''taiwan'')
      \<and> \<not> includesStr r nameZh \<longrightarrow> formatRegion r = r)
   \<and> (\<not> includesStr a flagTW \<and> \<not> includesStr (toLowerCase a) (ascii ''taiwan'')
      \<and> \<not> includesStr a nameZh \<longrightarrow>
        formatRegion (a @ flagTW @ b) = a @ flagUN @ formatRegion b
      \<and> (toLowerCase m = ascii ''taiwan'' \<longrightarrow>
           formatRegion (a @ m @ b) = a @ ascii ''Taiwan'' @ formatRegion b)
      \<and> formatRegion (a @ nameZh @ b) = a @ ascii ''Taiwan'' @ formatRegion b)
   \<and> regionLine node = formatRegion (region node)"
proof -
  have unmarked: "formatRegion r = r"
    if "\<not> includesStr r flagTW \<and> \<not> includesStr (toLowerCase r) (ascii ''taiwan'')
      \<and> \<not> includesStr r nameZh"
    using that by (simp add: formatRegion_def)
  have marked: "formatRegion (a @ flagTW @ b) = a @ flagUN @ formatRegion b
      \<and> (toLowerCase m = ascii ''taiwan'' \<longrightarrow>
           formatRegion (a @ m @ b) = a @ ascii ''Taiwan'' @ formatRegion b)
      \<and> formatRegion (a @ nameZh @ b) = a @ ascii ''Taiwan'' @ formatRegion b"
    if clean: "\<not> includesStr a flagTW \<and> \<not> includesStr (toLowerCase a) (ascii ''taiwan'')
      \<and> \<not> includesStr a nameZh"
  proof -
    from clean have "\<not> includesStr a flagTW" "\<not> includesStr (toLowerCase a) (ascii ''taiwan'')"
      "\<not> includesStr a nameZh"
      by simp_all
    then have cF: "\<forall>i. \<not> matchesAt id flagTW (drop i a)"
      and cT: "\<forall>i. \<not> matchesAt canonicalize (ascii ''taiwan'') (drop i a)"
      and cZ: "\<forall>i. \<not> matchesAt id nameZh (drop i a)"
      by (simp_all only: includes_id_iff [of a] includes_lower_iff not_ex simp_thms)
    have nF: "flagTW \<noteq> []" by (simp add: flagTW_def)
    have nT: "ascii ''taiwan'' \<noteq> []" by (simp add: ascii_def)
    have nZ: "nameZh \<noteq> []" by (simp add: nameZh_def)
    have nU: "flagUN \<noteq> []" by (simp add: flagUN_def)
    have nR: "ascii ''Taiwan'' \<noteq> []" by (simp add: ascii_def)
    have dTU: "set (map canonicalize (ascii ''taiwan'')) \<inter> set (map canonicalize flagUN) = {}"
      by (simp add: ascii_def flagUN_def canonicalize_def)
    have dZU: "set (map id nameZh) \<inter> set (map id flagUN) = {}"
      by (simp add: nameZh_def flagUN_def)
    have dZR: "set (map id nameZh) \<inter> set (map id (ascii ''Taiwan'')) = {}"
      by (simp add: nameZh_def ascii_def)
    have dFZ: "set (map id flagTW) \<inter> set (map id nameZh) = {}"
      by (simp add: nameZh_def flagTW_def)
    have dTZ: "set (map canonicalize (ascii ''taiwan'')) \<inter> set (map canonicalize nameZh) = {}"
      by (simp add: ascii_def nameZh_def canonicalize_def)
    have flag: "formatRegion (a @ flagTW @ b) = a @ flagUN @ formatRegion b"
    proof -
      have 1: "replaceAll id flagTW flagUN (a @ flagTW @ b) =
          a @ flagUN @ replaceAll id flagTW flagUN b"
        using cF nF refl refl border_flag by (rule replaceAll_hit_after)
      have 2: "replaceAll canonicalize (ascii ''taiwan'') (ascii ''Taiwan'') (a @ flagUN @ x) =
          a @ flagUN @ replaceAll canonicalize (ascii ''taiwan'') (ascii ''Taiwan'') x" for x
        using cT nT nU dTU by (rule replaceAll_skip_other)
      have 3: "replaceAll id nameZh (ascii ''Taiwan'') (a @ flagUN @ x) =
          a @ flagUN @ replaceAll id nameZh (ascii ''Taiwan'') x" for x
        using cZ nZ nU dZU by (rule replaceAll_skip_other)
      show ?thesis
        by (simp only: formatRegion_chain 1 2 3)
    qed
    have name: "formatRegion (a @ m @ b) = a @ ascii ''Taiwan'' @ formatRegion b"
      if "toLowerCase m = ascii ''taiwan''"
    proof -
      from that have v: "map canonicalize m = map canonicalize (ascii ''taiwan'')"
        by (simp only: lower_taiwan_iff)
      from that have "m \<noteq> []" by (auto simp: toLowerCase_def ascii_def)
      with cF nF have 1: "replaceAll id flagTW flagUN (a @ m @ b) =
          a @ m @ replaceAll id flagTW flagUN b"
        using disjoint_flag_variant [OF v] by (rule replaceAll_skip_other)
      have 2: "replaceAll canonicalize (ascii ''taiwan'') (ascii ''Taiwan'') (a @ m @ x) =
          a @ ascii ''Taiwan'' @
          replaceAll canonicalize (ascii ''taiwan'') (ascii ''Taiwan'') x" for x
        using cT nT variant_length [OF v] v border_taiwan by (rule replaceAll_hit_after)
      have 3: "replaceAll id nameZh (ascii ''Taiwan'') (a @ ascii ''Taiwan'' @ x) =
          a @ ascii ''Taiwan'' @ replaceAll id nameZh (ascii ''Taiwan'') x" for x
        using cZ nZ nR dZR by (rule replaceAll_skip_other)
      show ?thesis
        by (simp only: formatRegion_chain 1 2 3)
    qed
    have zh: "formatRegion (a @ nameZh @ b) = a @ ascii ''Taiwan'' @ formatRegion b"
    proof -
      have 1: "replaceAll id flagTW flagUN (a @ nameZh @ b) =
          a @ nameZh @ replaceAll id flagTW flagUN b"
        using cF nF nZ dFZ by (rule replaceAll_skip_other)
      have 2: "replaceAll canonicalize (ascii ''taiwan'') (ascii ''Taiwan'') (a @ nameZh @ x) =
          a @ nameZh @ replaceAll canonicalize (ascii ''taiwan'') (ascii ''Taiwan'') x" for x
        using cT nT nZ dTZ by (rule replaceAll_skip_other)
      have 3: "replaceAll id nameZh (ascii ''Taiwan'') (a @ nameZh @ x) =
          a @ ascii ''Taiwan'' @ replaceAll id nameZh (ascii ''Taiwan'') x" for x
        using cZ nZ refl refl border_zh by (rule replaceAll_hit_after)
      show ?thesis
        by (simp only: formatRegion_chain 1 2 3)
    qed
    from flag name zh show ?thesis by blast
  qed
  have line: "regionLine node = formatRegion (region node)"
    by (simp add: regionLine_def)
  from unmarked marked line show ?thesis by blast
qed

theorem region_rewrite_witness:
  "\<not> includesStr (ascii ''Tokyo'') flagTW
   \<and> \<not> includesStr (toLowerCase (ascii ''Tokyo'')) (ascii ''taiwan'')
   \<and> \<not> includesStr (ascii ''Tokyo'') nameZh
   \<and> formatRegion (ascii ''Tokyo'') = ascii ''Tokyo''
   \<and> \<not> includesStr (ascii ''Asia '') flagTW
   \<and> \<not> includesStr (toLowerCase (ascii ''Asia '')) (ascii ''taiwan'')
   \<and> \<not> includesStr (ascii ''Asia '') nameZh
   \<and> formatRegion (ascii ''Asia '' @ flagTW @ []) = ascii ''Asia '' @ flagUN
   \<and> toLowerCase (ascii ''TaIwAn'') = ascii ''taiwan''
   \<and> formatRegion (ascii ''Asia '' @ ascii ''TaIwAn'' @ []) = ascii ''Asia Taiwan''
   \<and> formatRegion (ascii ''Asia '' @ nameZh @ []) = ascii ''Asia Taiwan''"
proof -
  have r: "\<not> includesStr (ascii ''Tokyo'') flagTW
      \<and> \<not> includesStr (toLowerCase (ascii ''Tokyo'')) (ascii ''taiwan'')
      \<and> \<not> includesStr (ascii ''Tokyo'') nameZh"
    by (simp add: ascii_def flagTW_def nameZh_def toLowerCase_def startsWith_def)
  have a: "\<not> includesStr (ascii ''Asia '') flagTW
      \<and> \<not> includesStr (toLowerCase (ascii ''Asia '')) (ascii ''taiwan'')
      \<and> \<not> includesStr (ascii ''Asia '') nameZh"
    by (simp add: ascii_def flagTW_def nameZh_def toLowerCase_def startsWith_def)
  have m: "toLowerCase (ascii ''TaIwAn'') = ascii ''taiwan''"
    by (simp add: ascii_def toLowerCase_def)
  have e: "formatRegion [] = []"
    by (simp add: formatRegion_def flagTW_def nameZh_def ascii_def toLowerCase_def)
  note t = region_rewrite [of "ascii ''Tokyo''" "ascii ''Asia ''" "[]" "ascii ''TaIwAn''" blankNode]
  have t1: "formatRegion (ascii ''Tokyo'') = ascii ''Tokyo''"
    using t [THEN conjunct1] r by (rule mp)
  note t2 = t [THEN conjunct2, THEN conjunct1, THEN mp, OF a]
  have t3: "formatRegion (ascii ''Asia '' @ flagTW @ []) = ascii ''Asia '' @ flagUN"
    using t2 [THEN conjunct1] by (simp only: e append_Nil2)
  have t4: "formatRegion (ascii ''Asia '' @ ascii ''TaIwAn'' @ []) = ascii ''Asia Taiwan''"
    using t2 [THEN conjunct2, THEN conjunct1, THEN mp, OF m] by (simp add: e ascii_def)
  have t5: "formatRegion (ascii ''Asia '' @ nameZh @ []) = ascii ''Asia Taiwan''"
    using t2 [THEN conjunct2, THEN conjunct2] by (simp add: e ascii_def)
  from r a m t1 t3 t4 t5 show ?thesis
    by (intro conjI) (elim conjE, assumption)+
qed

section \<open>Formatting and percentages at the edges\<close>

lemma floor_minus_one: "\<lfloor>- 1 :: real\<rfloor> = - 1"
  using floor_of_int [of "- 1", where ?'a = real] by simp

text \<open>
  Just below a power of 1024 the model has no value, since there the rounding of the
  logarithms decides the index; the program returns a string there as well.
\<close>

lemma format_near_power:
  "formatBytes (Num (1024 ^ 5 - 1)) = None"
  by (simp add: format_simps)

text \<open>
  Claim C4, at the end of the unit tables. At \<open>1024^5\<close> bytes and at twice that the
  index is 5 and \<open>sizes[i]\<close> is \<open>undefined\<close>: the string ends in \<open>undefined\<close>
  and not in one of the five units; the same holds for rates at \<open>1024^4\<close> and twice
  that, and for a rate between 0 and 1, whose index is negative. The last unit of each
  table is reached one power below. (Wherever \<open>floorLog\<close> has a value, the unit is
  \<open>undefined\<close> exactly outside \<open>1 \<le> x < 1024^n\<close>: lemma
  \<open>unit_undefined_iff\<close>.)
\<close>

theorem format_beyond_table:
  "formatBytes (Num (1024 ^ 5)) = Some (ascii ''1 undefined'')
   \<and> formatBytes (Num (2 * 1024 ^ 5)) = Some (ascii ''2 undefined'')
   \<and> formatBytes (Num (1024 ^ 4)) = Some (ascii ''1 TB'')
   \<and> formatSpeed (Num (1024 ^ 4)) = Some (ascii ''1 undefined'')
   \<and> formatSpeed (Num (2 * 1024 ^ 4)) = Some (ascii ''2 undefined'')
   \<and> formatSpeed (Num (1024 ^ 3)) = Some (ascii ''1 GB/s'')
   \<and> formatSpeed (Num (1 / 2)) = Some (ascii ''512 undefined'')"
proof -
  have b1: "formatBytes (Num (1024 ^ 5)) = Some (ascii ''1 undefined'')"
    by (simp add: format_simps)
  have b2: "formatBytes (Num (2 * 1024 ^ 5)) = Some (ascii ''2 undefined'')"
    by (simp add: format_simps)
  have b3: "formatBytes (Num (1024 ^ 4)) = Some (ascii ''1 TB'')"
    by (simp add: format_simps)
  have s1: "formatSpeed (Num (1024 ^ 4)) = Some (ascii ''1 undefined'')"
    by (simp add: format_simps)
  have s2: "formatSpeed (Num (2 * 1024 ^ 4)) = Some (ascii ''2 undefined'')"
    by (simp add: format_simps)
  have s3: "formatSpeed (Num (1024 ^ 3)) = Some (ascii ''1 GB/s'')"
    by (simp add: format_simps)
  have s4: "formatSpeed (Num (1 / 2)) = Some (ascii ''512 undefined'')"
    by (simp add: format_simps floor_minus_one)
  show ?thesis
    by (intro conjI) (fact b1 b2 b3 s1 s2 s3 s4)+
qed

text \<open>
  A total of zero, in general: the usage is an infinity or \<open>NaN\<close>, and that is what
  the card writes before the percent sign.
\<close>

lemma percentText_nonfinite:
  "percentText NaN = Some (ascii ''NaN%'')"
  "percentText PosInf = Some (ascii ''Infinity%'')"
  "percentText NegInf = Some (ascii ''-Infinity%'')"
  by (simp_all add: percentText_def toFixed_def numToString_def ascii_def)

lemma zero_total_usage:
  assumes "total_bytes (ram s) = Num 0" and "used (ram s) = Num u"
  shows "ramUsage s = (if 0 < u then PosInf else if u < 0 then NegInf else NaN)"
    and "ramPercent s =
           Some (if 0 < u then ascii ''Infinity%''
                 else if u < 0 then ascii ''-Infinity%'' else ascii ''NaN%'')"
    and "stats node = Some s \<Longrightarrow> ramStatus node = (if 0 < u then Critical else Normal)"
proof -
  show u: "ramUsage s = (if 0 < u then PosInf else if u < 0 then NegInf else NaN)"
    using assms by (simp add: ramUsage_def)
  show "ramPercent s =
           Some (if 0 < u then ascii ''Infinity%''
                 else if u < 0 then ascii ''-Infinity%'' else ascii ''NaN%'')"
    unfolding ramPercent_def u by (simp add: percentText_nonfinite)
  show "ramStatus node = (if 0 < u then Critical else Normal)" if "stats node = Some s"
    using that by (simp add: ramStatus_def u)
qed

lemma zero_total_disk_usage:
  assumes "total_bytes (disk s) = Num 0" and "used (disk s) = Num u"
  shows "diskUsage s = (if 0 < u then PosInf else if u < 0 then NegInf else NaN)"
    and "diskPercent s =
           Some (if 0 < u then ascii ''Infinity%''
                 else if u < 0 then ascii ''-Infinity%'' else ascii ''NaN%'')"
    and "stats node = Some s \<Longrightarrow> diskStatus node = (if 0 < u then Critical else Normal)"
proof -
  show u: "diskUsage s = (if 0 < u then PosInf else if u < 0 then NegInf else NaN)"
    using assms by (simp add: diskUsage_def)
  show "diskPercent s =
           Some (if 0 < u then ascii ''Infinity%''
                 else if u < 0 then ascii ''-Infinity%'' else ascii ''NaN%'')"
    unfolding diskPercent_def u by (simp add: percentText_nonfinite)
  show "diskStatus node = (if 0 < u then Critical else Normal)" if "stats node = Some s"
    using that by (simp add: diskStatus_def u)
qed

text \<open>
  Claim C9, at a total of zero. Nothing is thrown, and the quotient is \<open>NaN\<close> for
  zero used bytes and \<open>Infinity\<close> otherwise: the percentage is drawn as \<open>NaN%\<close>
  or \<open>Infinity%\<close>, and the status is normal or critical. The two neighbours guard
  their value: the availability is \<open>0%\<close> for an empty fleet and the traffic is
  \<open>N/A\<close> for a zero counter.
\<close>

theorem zero_total_percent:
  "ramUsage (blankStats \<lparr> ram := \<lparr> total_bytes = Num 0, used = Num 0 \<rparr> \<rparr>) = NaN
   \<and> ramPercent (blankStats \<lparr> ram := \<lparr> total_bytes = Num 0, used = Num 0 \<rparr> \<rparr>)
       = Some (ascii ''NaN%'')
   \<and> ramStatus (blankNode \<lparr> stats := Some (blankStats \<lparr>
         ram := \<lparr> total_bytes = Num 0, used = Num 0 \<rparr> \<rparr>) \<rparr>) = Normal
   \<and> ramUsage (blankStats \<lparr> ram := \<lparr> total_bytes = Num 0, used = Num 4096 \<rparr> \<rparr>) = PosInf
   \<and> ramPercent (blankStats \<lparr> ram := \<lparr> total_bytes = Num 0, used = Num 4096 \<rparr> \<rparr>)
       = Some (ascii ''Infinity%'')
   \<and> ramStatus (blankNode \<lparr> stats := Some (blankStats \<lparr>
         ram := \<lparr> total_bytes = Num 0, used = Num 4096 \<rparr> \<rparr>) \<rparr>) = Critical
   \<and> diskPercent (blankStats \<lparr> disk := \<lparr> total_bytes = Num 0, used = Num 0 \<rparr> \<rparr>)
       = Some (ascii ''NaN%'')
   \<and> diskPercent (blankStats \<lparr> disk := \<lparr> total_bytes = Num 0, used = Num 4096 \<rparr> \<rparr>)
       = Some (ascii ''Infinity%'')
   \<and> diskStatus (blankNode \<lparr> stats := Some (blankStats \<lparr>
         disk := \<lparr> total_bytes = Num 0, used = Num 4096 \<rparr> \<rparr>) \<rparr>) = Critical
   \<and> availabilityText (Num 0) 0 = Some (ascii ''0%'')
   \<and> trafficText (Num 0) = Some (ascii ''N/A'')"
  by (simp add: ramUsage_def diskUsage_def ramPercent_def diskPercent_def percentText_def
      ramStatus_def diskStatus_def blankNode_def blankStats_def availabilityText_def
      trafficText_def toFixed_def numToString_def ascii_def)

end
